theory Spec2Isabelle
  imports Complex_Main "HOL-Library.Word"
begin

unbundle bit_operations_syntax

section \<open>Bytes and the struct formats\<close>

text \<open>
  A datagram is a list of bytes. Python integers are unbounded and modelled as \<open>int\<close>;
  \<open>struct.pack\<close> raises \<open>struct.error\<close> on a value outside the field's range.
  Clock readings (\<open>time.time()\<close>) are handed to each operation as an argument. They
  are Python floats: a float is a real number, comparisons and \<open>int()\<close> on floats are
  exact, and the rounded operations are parameters of the model, so that every statement
  holds for the floating-point arithmetic of whatever runtime executes the code.
\<close>

type_synonym byte = "8 word"

datatype error = StructError | KeyError | ValueError

text \<open>
  The float operations the code uses: \<open>x - y\<close>, \<open>sum(xs)\<close>, \<open>x / n\<close> and
  \<open>k * x\<close>.
\<close>

record float_ops =
  f_sub :: "real \<Rightarrow> real \<Rightarrow> real"
  f_sum :: "real list \<Rightarrow> real"
  f_div :: "real \<Rightarrow> real \<Rightarrow> real"
  f_mul :: "real \<Rightarrow> real \<Rightarrow> real"

text \<open>Arithmetic without rounding: what the float operations do where the result is a float.\<close>

definition exact_ops :: float_ops where
  "exact_ops = \<lparr> f_sub = (\<lambda>x y. x - y), f_sum = sum_list, f_div = (\<lambda>x y. x / y),
                 f_mul = (\<lambda>x y. x * y) \<rparr>"

definition be2 :: "int \<Rightarrow> byte list" where
  "be2 v = [word_of_int (v div 256), word_of_int v]"

definition be4 :: "int \<Rightarrow> byte list" where
  "be4 v = [word_of_int (v div 16777216), word_of_int (v div 65536),
            word_of_int (v div 256), word_of_int v]"

text \<open>\<open>struct.pack("!I", v)\<close>\<close>

definition pack_I :: "int \<Rightarrow> error + byte list" where
  "pack_I v = (if 0 \<le> v \<and> v < 4294967296 then Inr (be4 v) else Inl StructError)"

text \<open>\<open>struct.unpack("!H", [a, b])\<close> and \<open>struct.unpack("!I", [a, b, c, d])\<close>\<close>

definition unpack_H :: "byte \<Rightarrow> byte \<Rightarrow> int" where
  "unpack_H a b = uint a * 256 + uint b"

definition unpack_I :: "byte \<Rightarrow> byte \<Rightarrow> byte \<Rightarrow> byte \<Rightarrow> int" where
  "unpack_I a b c d = uint a * 16777216 + uint b * 65536 + uint c * 256 + uint d"

text \<open>\<open>HEADER_FMT = "!B H H I B"\<close>: no padding in network order, 10 bytes.\<close>

definition HEADER_SIZE :: nat where
  "HEADER_SIZE = 10"

definition pack_header :: "int \<Rightarrow> int \<Rightarrow> int \<Rightarrow> int \<Rightarrow> int \<Rightarrow> error + byte list" where
  "pack_header raw_byte dev sq ts fl =
     (if 0 \<le> raw_byte \<and> raw_byte < 256 \<and> 0 \<le> dev \<and> dev < 65536 \<and> 0 \<le> sq \<and> sq < 65536
         \<and> 0 \<le> ts \<and> ts < 4294967296 \<and> 0 \<le> fl \<and> fl < 256
      then Inr ([word_of_int raw_byte] @ be2 dev @ be2 sq @ be4 ts @ [word_of_int fl])
      else Inl StructError)"

definition unpack_header :: "byte list \<Rightarrow> error + (int \<times> int \<times> int \<times> int \<times> int)" where
  "unpack_header h =
     (if length h = HEADER_SIZE
      then Inr (uint (h ! 0), unpack_H (h ! 1) (h ! 2), unpack_H (h ! 3) (h ! 4),
                unpack_I (h ! 5) (h ! 6) (h ! 7) (h ! 8), uint (h ! 9))
      else Inl StructError)"

text \<open>\<open>int(x)\<close> on a float truncates towards zero.\<close>

definition py_int :: "real \<Rightarrow> int" where
  "py_int r = (if 0 \<le> r then \<lfloor>r\<rfloor> else \<lceil>r\<rceil>)"

text \<open>The payload loop \<open>for v in batch: payload += struct.pack("!I", v)\<close>.\<close>

fun pack_readings :: "int list \<Rightarrow> error + byte list" where
  "pack_readings [] = Inr []"
| "pack_readings (v # vs) =
     (case pack_I v of
        Inl e \<Rightarrow> Inl e
      | Inr b \<Rightarrow> (case pack_readings vs of Inl e \<Rightarrow> Inl e | Inr bs \<Rightarrow> Inr (b @ bs)))"

section \<open>Sensor side: \<open>sensor_base.py\<close>\<close>

record sensor =
  device_id :: int
  report_interval :: real
  heartbeat_interval :: real
  batch_size :: int
  batch_buffer :: "int list"
  seq :: int
  last_heartbeat_time :: real
  last_data_time :: real

definition MAX_PAYLOAD_BYTES :: int where
  "MAX_PAYLOAD_BYTES = 200 - 10"

definition MAX_READINGS_PER_BATCH :: int where
  "MAX_READINGS_PER_BATCH = MAX_PAYLOAD_BYTES div 4"

text \<open>\<open>TelemetrySensor.__init__\<close>; \<open>now\<close> is the clock at construction.\<close>

definition sensor_init :: "int \<Rightarrow> real \<Rightarrow> int \<Rightarrow> real \<Rightarrow> real \<Rightarrow> sensor" where
  "sensor_init dev rep_iv bsize hb_iv now =
     \<lparr> device_id = dev, report_interval = rep_iv, heartbeat_interval = hb_iv,
       batch_size = min bsize MAX_READINGS_PER_BATCH, batch_buffer = [], seq = 0,
       last_heartbeat_time = now, last_data_time = now \<rparr>"

text \<open>
  \<open>build_packet(msg_type, payload, flags)\<close>: the sequence number is the sensor's own
  counter, advanced here; the oversize check only prints a warning.
\<close>

definition build_packet ::
  "sensor \<Rightarrow> real \<Rightarrow> int \<Rightarrow> byte list \<Rightarrow> int \<Rightarrow> error + (byte list \<times> sensor)" where
  "build_packet s now msg_type payload flags =
     (let version = 1 AND 15;
          msg_type' = msg_type AND 15;
          raw_byte = (push_bit 4 version OR msg_type') AND 255;
          timestamp = py_int now;
          s' = s\<lparr>seq := (seq s + 1) AND 65535\<rparr>
      in case pack_header raw_byte (device_id s') (seq s') timestamp flags of
           Inl e \<Rightarrow> Inl e
         | Inr header \<Rightarrow> Inr (header @ payload, s'))"

definition check_payload_size :: "byte list \<Rightarrow> bool" where
  "check_payload_size payload = (HEADER_SIZE + length payload \<le> 200)"

text \<open>
  \<open>TelemetrySensor.send_batch_packet\<close>: result is the returned flag, the sensor after the
  call and the datagrams handed to the socket. \<open>now\<close> is the clock inside
  \<open>build_packet\<close>, \<open>now'\<close> the one stored as \<open>last_data_time\<close>.
\<close>

definition send_batch_packet ::
  "sensor \<Rightarrow> real \<Rightarrow> real \<Rightarrow> error + (bool \<times> sensor \<times> byte list list)" where
  "send_batch_packet s now now' =
     (if int (length (batch_buffer s)) < batch_size s then Inr (False, s, [])
      else case pack_readings (batch_buffer s) of
        Inl e \<Rightarrow> Inl e
      | Inr payload \<Rightarrow>
         (case (if \<not> check_payload_size payload
                then (let max_readings = nat MAX_READINGS_PER_BATCH;
                          s1 = s\<lparr>batch_buffer := take max_readings (batch_buffer s)\<rparr>
                      in case pack_readings (take max_readings (batch_buffer s1)) of
                           Inl e \<Rightarrow> Inl e
                         | Inr p \<Rightarrow> Inr (s1, p))
                else Inr (s, payload)) of
            Inl e \<Rightarrow> Inl e
          | Inr (s1, payload1) \<Rightarrow>
             (case build_packet s1 now 1 payload1 1 of
                Inl e \<Rightarrow> Inl e
              | Inr (pkt, s2) \<Rightarrow>
                  Inr (True, s2\<lparr>last_data_time := now', batch_buffer := []\<rparr>, [pkt]))))"

definition send_heartbeat :: "sensor \<Rightarrow> real \<Rightarrow> real \<Rightarrow> error + (sensor \<times> byte list list)" where
  "send_heartbeat s now now' =
     (case build_packet s now 2 [] 0 of
        Inl e \<Rightarrow> Inl e
      | Inr (pkt, s1) \<Rightarrow> Inr (s1\<lparr>last_heartbeat_time := now'\<rparr>, [pkt]))"

definition should_send_heartbeat :: "float_ops \<Rightarrow> sensor \<Rightarrow> real \<Rightarrow> bool" where
  "should_send_heartbeat ops s current_time =
     (let time_since_last_heartbeat = f_sub ops current_time (last_heartbeat_time s);
          time_since_last_data = f_sub ops current_time (last_data_time s)
      in time_since_last_heartbeat \<ge> heartbeat_interval s \<and>
         time_since_last_data \<ge> report_interval s)"

section \<open>Sensor side: \<open>sensor.py\<close> (temperature sensor with ACK handling)\<close>

definition MAX_RETRIES :: int where
  "MAX_RETRIES = 3"

definition HIGH_TEMP_THRESHOLD :: int where
  "HIGH_TEMP_THRESHOLD = 3500"

text \<open>
  What one \<open>recvfrom\<close> with a timeout gives: the timeout, or a datagram. The transport
  is a list of such outcomes, one per call; a run that needs more outcomes than the list
  holds has no result (\<open>None\<close>).
\<close>

datatype reply = Timeout | Data "byte list"

definition ACK_prefix :: "byte list" where
  "ACK_prefix = [65, 67, 75]"

text \<open>
  The retry loop of \<open>TemperatureSensor.send_batch_packet\<close>. \<open>to_int\<close> stands for Python's
  \<open>int()\<close> on bytes (\<open>None\<close> is its \<open>ValueError\<close>, which the loop does not catch). The
  result holds the datagrams sent, the retry counter, \<open>ack_received\<close> and the outcomes
  not consumed.
\<close>

fun ack_loop ::
  "(byte list \<Rightarrow> int option) \<Rightarrow> byte list \<Rightarrow> int \<Rightarrow> int \<Rightarrow> bool \<Rightarrow> byte list list \<Rightarrow> reply list
     \<Rightarrow> (error + (byte list list \<times> int \<times> bool \<times> reply list)) option" where
  "ack_loop to_int pkt sq retries ack_received sent [] =
     (if retries < MAX_RETRIES \<and> \<not> ack_received then None
      else Some (Inr (sent, retries, ack_received, [])))"
| "ack_loop to_int pkt sq retries ack_received sent (r # rs) =
     (if retries < MAX_RETRIES \<and> \<not> ack_received then
        (case r of
           Timeout \<Rightarrow> ack_loop to_int pkt sq (retries + 1) ack_received (sent @ [pkt]) rs
         | Data d \<Rightarrow>
            (if take 3 d = ACK_prefix then
               (case to_int (drop 4 d) of
                  None \<Rightarrow> Some (Inl ValueError)
                | Some ack_seq \<Rightarrow>
                    (if ack_seq = sq
                     then ack_loop to_int pkt sq retries True (sent @ [pkt]) rs
                     else ack_loop to_int pkt sq retries ack_received (sent @ [pkt]) rs))
             else ack_loop to_int pkt sq retries ack_received (sent @ [pkt]) rs))
      else Some (Inr (sent, retries, ack_received, r # rs)))"

definition need_ack :: "int list \<Rightarrow> bool" where
  "need_ack batch = list_ex (\<lambda>v. v \<ge> HIGH_TEMP_THRESHOLD) batch"

text \<open>
  \<open>TemperatureSensor.send_batch_packet\<close>: result is the returned flag, the sensor after
  the call, the datagrams sent in order, and the transport outcomes left over.
\<close>

definition temp_send_batch_packet ::
  "(byte list \<Rightarrow> int option) \<Rightarrow> sensor \<Rightarrow> real \<Rightarrow> real \<Rightarrow> reply list
     \<Rightarrow> (error + (bool \<times> sensor \<times> byte list list \<times> reply list)) option" where
  "temp_send_batch_packet to_int s now now' rs =
     (if int (length (batch_buffer s)) < batch_size s then Some (Inr (False, s, [], rs))
      else case pack_readings (batch_buffer s) of
        Inl e \<Rightarrow> Some (Inl e)
      | Inr payload \<Rightarrow>
         (let flags = (if need_ack (batch_buffer s) then 2 else 0)
          in case build_packet s now 1 payload flags of
               Inl e \<Rightarrow> Some (Inl e)
             | Inr (pkt, s1) \<Rightarrow>
                (if need_ack (batch_buffer s1) then
                   (case ack_loop to_int pkt (seq s1) 0 False [] rs of
                      None \<Rightarrow> None
                    | Some (Inl e) \<Rightarrow> Some (Inl e)
                    | Some (Inr (sent, retries, ack_received, rs')) \<Rightarrow>
                        Some (Inr (True, s1\<lparr>last_data_time := now', batch_buffer := []\<rparr>,
                                   sent, rs')))
                 else Some (Inr (True, s1\<lparr>last_data_time := now', batch_buffer := []\<rparr>,
                                 [pkt], rs)))))"

section \<open>Server side: \<open>server.py\<close>\<close>

datatype status = ONLINE | OFFLINE

text \<open>One tuple of the reorder buffer, in the order the source builds it.\<close>

record entry =
  e_timestamp :: int
  e_device_id :: int
  e_seq :: int
  e_msg_type :: int
  e_payload :: "byte list"
  e_duplicate_flag :: int
  e_gap_flag :: int
  e_flags :: int
  e_reading_count :: int

datatype log_value = Values "int list" | HEARTBEAT

text \<open>One row of \<open>telemetry_log.csv\<close>.\<close>

record log_row =
  r_device_id :: int
  r_seq :: int
  r_msg_type :: int
  r_timestamp_sent :: int
  r_timestamp_arrival :: int
  r_duplicate_flag :: int
  r_gap_flag :: int
  r_flags :: int
  r_payload_value :: log_value

text \<open>The global \<open>metrics\<close> dictionary (the counters; CPU times are left out).\<close>

record metrics_rec =
  total_packets :: int
  total_readings :: int
  duplicate_count :: int
  gap_count :: int
  total_bytes :: int

type_synonym addr = "string \<times> int"

record server =
  last_seq :: "int \<rightharpoonup> int"
  duplicate_counts :: "int \<rightharpoonup> int"
  gap_counts :: "int \<rightharpoonup> int"
  reorder_buffer :: "int \<rightharpoonup> entry list"
  device_heartbeats :: "int \<rightharpoonup> real list"
  device_status :: "int \<rightharpoonup> status"
  last_values :: "int \<rightharpoonup> int list"
  status_csv :: "(int \<times> int \<times> status) list"
  log_file :: "log_row list"
  metrics :: metrics_rec

definition server_init :: server where
  "server_init =
     \<lparr> last_seq = Map.empty, duplicate_counts = Map.empty, gap_counts = Map.empty,
       reorder_buffer = Map.empty, device_heartbeats = Map.empty, device_status = Map.empty,
       last_values = Map.empty, status_csv = [], log_file = [],
       metrics = \<lparr> total_packets = 0, total_readings = 0, duplicate_count = 0,
                   gap_count = 0, total_bytes = 0 \<rparr> \<rparr>"

subsection \<open>\<open>detect_seq_state\<close>\<close>

text \<open>
  Returns the server after the call and \<open>(duplicate_flag, gap_flag, gap_count_here)\<close>;
  \<open>d[k] += n\<close> on a missing key is Python's \<open>KeyError\<close>.
\<close>

definition detect_seq_state ::
  "server \<Rightarrow> int \<Rightarrow> int \<Rightarrow> error + (server \<times> int \<times> int \<times> int)" where
  "detect_seq_state st dev sq =
     (case last_seq st dev of
        None \<Rightarrow>
          Inr (st\<lparr>last_seq := (last_seq st)(dev \<mapsto> sq),
                  duplicate_counts := (duplicate_counts st)(dev \<mapsto> 0),
                  gap_counts := (gap_counts st)(dev \<mapsto> 0)\<rparr>, 0, 0, 0)
      | Some lastv \<Rightarrow>
          (if sq = lastv then
             (case duplicate_counts st dev of
                None \<Rightarrow> Inl KeyError
              | Some c \<Rightarrow>
                  Inr (st\<lparr>duplicate_counts := (duplicate_counts st)(dev \<mapsto> c + 1),
                          metrics := (metrics st)\<lparr>duplicate_count :=
                                                    duplicate_count (metrics st) + 1\<rparr>\<rparr>,
                       1, 0, 0))
           else if sq = (lastv + 1) AND 65535 then
             Inr (st\<lparr>last_seq := (last_seq st)(dev \<mapsto> sq)\<rparr>, 0, 0, 0)
           else if (sq AND 65535) > (lastv AND 65535) \<and> sq > lastv + 1 then
             (case gap_counts st dev of
                None \<Rightarrow> Inl KeyError
              | Some g \<Rightarrow>
                  Inr (st\<lparr>gap_counts := (gap_counts st)(dev \<mapsto> g + (sq - lastv - 1)),
                          last_seq := (last_seq st)(dev \<mapsto> sq)\<rparr>,
                       0, 1, sq - lastv - 1))
           else Inr (st, 0, 0, 0)))"

subsection \<open>\<open>parse_values\<close>\<close>

text \<open>Four bytes at a time; a last chunk of fewer than four bytes is skipped.\<close>

fun parse_values :: "byte list \<Rightarrow> int list" where
  "parse_values (a # b # c # d # rest) = unpack_I a b c d # parse_values rest"
| "parse_values _ = []"

subsection \<open>\<open>handle_heartbeat\<close>\<close>

text \<open>\<open>[t2 - t1 for t1, t2 in zip(ts[:-1], ts[1:])]\<close>\<close>

definition intervals :: "float_ops \<Rightarrow> real list \<Rightarrow> real list" where
  "intervals ops ts = map (\<lambda>(t1, t2). f_sub ops t2 t1) (zip (butlast ts) (tl ts))"

definition avg_interval :: "float_ops \<Rightarrow> real list \<Rightarrow> real" where
  "avg_interval ops last_times =
     (if length last_times \<ge> 2
      then f_div ops (f_sum ops (intervals ops last_times))
                     (real (length (intervals ops last_times)))
      else 1.0)"

text \<open>\<open>xs[-10:]\<close>\<close>

definition last10 :: "'a list \<Rightarrow> 'a list" where
  "last10 xs = drop (length xs - 10) xs"

text \<open>
  The server after the call, and the average interval the call computes (and prints).
\<close>

definition handle_heartbeat ::
  "float_ops \<Rightarrow> server \<Rightarrow> int \<Rightarrow> real \<Rightarrow> server \<times> real" where
  "handle_heartbeat ops st dev current_time =
     (let last_times = (case device_heartbeats st dev of None \<Rightarrow> [] | Some ts \<Rightarrow> ts)
                         @ [current_time];
          st1 = st\<lparr>device_heartbeats := (device_heartbeats st)(dev \<mapsto> last10 last_times)\<rparr>;
          avg = avg_interval ops last_times;
          prev_status = (case device_status st1 dev of None \<Rightarrow> ONLINE | Some p \<Rightarrow> p);
          status = (if prev_status = ONLINE \<and> length last_times \<ge> 2
                       \<and> f_sub ops current_time (last_times ! (length last_times - 2))
                           > f_mul ops 2 avg
                    then OFFLINE else ONLINE)
      in (if prev_status \<noteq> status \<or> device_status st1 dev = None
          then st1\<lparr>device_status := (device_status st1)(dev \<mapsto> status),
                   status_csv := status_csv st1 @ [(dev, py_int current_time, status)]\<rparr>
          else st1, avg))"

subsection \<open>\<open>flush_reordered\<close>\<close>

definition row_of :: "int \<Rightarrow> entry \<Rightarrow> log_row" where
  "row_of arrival_time e =
     \<lparr> r_device_id = e_device_id e, r_seq = e_seq e, r_msg_type = e_msg_type e,
       r_timestamp_sent = e_timestamp e, r_timestamp_arrival = arrival_time,
       r_duplicate_flag = e_duplicate_flag e, r_gap_flag = e_gap_flag e,
       r_flags = e_flags e,
       r_payload_value = (if e_msg_type e = 1 then Values (parse_values (e_payload e))
                          else HEARTBEAT) \<rparr>"

text \<open>The loop over the sorted buffer: one row per entry whose duplicate flag is 0.\<close>

fun flush_rows :: "int \<Rightarrow> entry list \<Rightarrow> log_row list" where
  "flush_rows arrival_time [] = []"
| "flush_rows arrival_time (e # es) =
     (if e_duplicate_flag e = 0 then row_of arrival_time e # flush_rows arrival_time es
      else flush_rows arrival_time es)"

text \<open>\<open>list.sort(key=lambda x: x[0])\<close> is a stable sort by the key, as \<open>sort_key\<close> is.\<close>

definition flush_reordered :: "server \<Rightarrow> int \<Rightarrow> real \<Rightarrow> error + server" where
  "flush_reordered st dev now =
     (case reorder_buffer st dev of
        None \<Rightarrow> Inl KeyError
      | Some buf \<Rightarrow>
          (let sorted_buf = sort_key e_timestamp buf
           in Inr (st\<lparr>log_file := log_file st @ flush_rows (py_int now) sorted_buf,
                      reorder_buffer := (reorder_buffer st)(dev \<mapsto> [])\<rparr>)))"

subsection \<open>\<open>send_ack\<close> and \<open>handle_packet\<close>\<close>

text \<open>\<open>str(n)\<close> in ASCII.\<close>

fun digits :: "nat \<Rightarrow> byte list" where
  "digits n = (if n < 10 then [of_nat (48 + n)]
               else digits (n div 10) @ [of_nat (48 + n mod 10)])"

definition str_int :: "int \<Rightarrow> byte list" where
  "str_int k = (if k < 0 then 45 # digits (nat (- k)) else digits (nat k))"

text \<open>\<open>f"ACK {seq}".encode()\<close>, sent to \<open>addr\<close>.\<close>

definition send_ack :: "addr \<Rightarrow> int \<Rightarrow> int \<Rightarrow> addr \<times> byte list" where
  "send_ack a dev sq = (a, [65, 67, 75, 32] @ str_int sq)"

text \<open>Lines 90 to 104: the length check and the header.\<close>

definition decode_header ::
  "byte list \<Rightarrow> error + (int \<times> int \<times> int \<times> int \<times> int \<times> int \<times> byte list)" where
  "decode_header data =
     (if length data < HEADER_SIZE then Inl StructError
      else let header = take HEADER_SIZE data; payload = drop HEADER_SIZE data
           in case unpack_header header of
                Inl e \<Rightarrow> Inl e
              | Inr (raw_byte, dev, sq, timestamp, flags) \<Rightarrow>
                  (let version = drop_bit 4 raw_byte AND 15;
                       msg_type = raw_byte AND 15
                   in Inr (version, msg_type, dev, sq, timestamp, flags, payload)))"

text \<open>Lines 157 to 164: append to the device's buffer, flush at five entries.\<close>

definition store_entry :: "server \<Rightarrow> entry \<Rightarrow> real \<Rightarrow> error + server" where
  "store_entry st e now =
     (let dev = e_device_id e;
          st1 = (if reorder_buffer st dev = None
                 then st\<lparr>reorder_buffer := (reorder_buffer st)(dev \<mapsto> [])\<rparr> else st);
          buf = (case reorder_buffer st1 dev of None \<Rightarrow> [] | Some b \<Rightarrow> b) @ [e];
          st2 = st1\<lparr>reorder_buffer := (reorder_buffer st1)(dev \<mapsto> buf)\<rparr>
      in if length buf \<ge> 5 then flush_reordered st2 dev now else Inr st2)"

text \<open>
  \<open>handle_packet(data, addr)\<close>: the server after the call and the ACK datagrams sent.
  A packet that is too short or whose header does not unpack leaves the server as it was.
\<close>

definition handle_packet ::
  "float_ops \<Rightarrow> server \<Rightarrow> byte list \<Rightarrow> addr \<Rightarrow> real
     \<Rightarrow> error + (server \<times> (addr \<times> byte list) list)" where
  "handle_packet ops st data a now =
     (case decode_header data of
        Inl e \<Rightarrow> Inr (st, [])
      | Inr (version, msg_type, dev, sq, timestamp, flags, payload) \<Rightarrow>
         (let st1 = st\<lparr>metrics := (metrics st)
                       \<lparr>total_packets := total_packets (metrics st) + 1,
                        total_bytes := total_bytes (metrics st) + int (length data)\<rparr>\<rparr>
          in case detect_seq_state st1 dev sq of
               Inl e \<Rightarrow> Inl e
             | Inr (st2, duplicate_flag, gap_flag, gap_count_here) \<Rightarrow>
                (if duplicate_flag \<noteq> 0 then Inr (st2, [])
                 else
                  (let st3 = (if gap_flag \<noteq> 0
                              then st2\<lparr>metrics := (metrics st2)
                                     \<lparr>gap_count := gap_count (metrics st2) + gap_count_here\<rparr>\<rparr>
                              else st2)
                   in if msg_type = 1 then
                        (let vals = parse_values payload;
                             reading_count = int (length vals);
                             st4 = st3\<lparr>last_values := (last_values st3)(dev \<mapsto> vals),
                                       metrics := (metrics st3)
                                         \<lparr>total_readings :=
                                            total_readings (metrics st3) + reading_count\<rparr>\<rparr>;
                             acks = (if flags AND 2 \<noteq> 0 then [send_ack a dev sq] else [])
                         in case store_entry st4
                                   \<lparr> e_timestamp = timestamp, e_device_id = dev, e_seq = sq,
                                     e_msg_type = msg_type, e_payload = payload,
                                     e_duplicate_flag = duplicate_flag, e_gap_flag = gap_flag,
                                     e_flags = flags, e_reading_count = reading_count \<rparr> now of
                              Inl e \<Rightarrow> Inl e
                            | Inr st5 \<Rightarrow> Inr (st5, acks))
                      else if msg_type = 2 then
                        (let st4 = fst (handle_heartbeat ops st3 dev now)
                         in case store_entry st4
                                   \<lparr> e_timestamp = timestamp, e_device_id = dev, e_seq = sq,
                                     e_msg_type = msg_type, e_payload = payload,
                                     e_duplicate_flag = duplicate_flag, e_gap_flag = gap_flag,
                                     e_flags = flags, e_reading_count = 0 \<rparr> now of
                              Inl e \<Rightarrow> Inl e
                            | Inr st5 \<Rightarrow> Inr (st5, []))
                      else Inr (st3, [])))))"

section \<open>The sensor's reporting loop\<close>

text \<open>
  One iteration of \<open>run\<close> for a sensor that keeps the base class's sender (humidity,
  light): \<open>t\<close> is the clock read by \<open>should_send_heartbeat\<close>, \<open>reading\<close> what
  \<open>generate_reading\<close> returns.
\<close>

definition run_step ::
  "float_ops \<Rightarrow> sensor \<Rightarrow> real \<Rightarrow> real \<Rightarrow> real \<Rightarrow> int
     \<Rightarrow> error + (sensor \<times> byte list list)" where
  "run_step ops s t now now' reading =
     (if should_send_heartbeat ops s t then send_heartbeat s now now'
      else (let s1 = s\<lparr>batch_buffer := batch_buffer s @ [reading]\<rparr>
            in case send_batch_packet s1 now now' of
                 Inl e \<Rightarrow> Inl e
               | Inr (sent, s2, pkts) \<Rightarrow> Inr (s2, pkts)))"

text \<open>The same iteration for the temperature sensor, whose sender is its own.\<close>

definition temp_run_step ::
  "(byte list \<Rightarrow> int option) \<Rightarrow> float_ops \<Rightarrow> sensor \<Rightarrow> real \<Rightarrow> real \<Rightarrow> real \<Rightarrow> int
     \<Rightarrow> reply list \<Rightarrow> (error + (sensor \<times> byte list list \<times> reply list)) option" where
  "temp_run_step to_int ops s t now now' reading rs =
     (if should_send_heartbeat ops s t then
        (case send_heartbeat s now now' of
           Inl e \<Rightarrow> Some (Inl e)
         | Inr (s1, pkts) \<Rightarrow> Some (Inr (s1, pkts, rs)))
      else (let s1 = s\<lparr>batch_buffer := batch_buffer s @ [reading]\<rparr>
            in case temp_send_batch_packet to_int s1 now now' rs of
                 None \<Rightarrow> None
               | Some (Inl e) \<Rightarrow> Some (Inl e)
               | Some (Inr (sent, s2, pkts, rs')) \<Rightarrow> Some (Inr (s2, pkts, rs'))))"

text \<open>
  What holds of a sensor between iterations: the constructor's cap on the batch size, and
  a pending batch that has not yet reached it.
\<close>

definition batch_inv :: "sensor \<Rightarrow> bool" where
  "batch_inv s = (batch_size s \<le> MAX_READINGS_PER_BATCH \<and>
                  int (length (batch_buffer s)) < max 1 (batch_size s))"

section \<open>Notions used in the statements\<close>

subsection \<open>The sequence tracker as the specification words it\<close>

record dss =
  lastSeen :: int
  duplicateCount :: int
  gapCount :: int

record verdict =
  isDuplicate :: bool
  isGap :: bool
  gapSize :: int

definition no_dup_no_gap :: verdict where
  "no_dup_no_gap = \<lparr> isDuplicate = False, isGap = False, gapSize = 0 \<rparr>"

text \<open>
  The reference classifier: first observation, then the four branches in the order the
  specification lists them.
\<close>

definition classify_spec :: "dss option \<Rightarrow> int \<Rightarrow> dss \<times> verdict" where
  "classify_spec known s =
     (case known of
        None \<Rightarrow> (\<lparr> lastSeen = s, duplicateCount = 0, gapCount = 0 \<rparr>, no_dup_no_gap)
      | Some d \<Rightarrow>
          (let L = lastSeen d in
           if s = L then
             (d\<lparr>duplicateCount := duplicateCount d + 1\<rparr>,
              \<lparr> isDuplicate = True, isGap = False, gapSize = 0 \<rparr>)
           else if s = (L + 1) mod 65536 then (d\<lparr>lastSeen := s\<rparr>, no_dup_no_gap)
           else if s > L \<and> s > L + 1 then
             (d\<lparr>lastSeen := s, gapCount := gapCount d + (s - L - 1)\<rparr>,
              \<lparr> isDuplicate = False, isGap = True, gapSize = s - L - 1 \<rparr>)
           else (d, no_dup_no_gap)))"

text \<open>The three dictionaries of the server, read as one record per device.\<close>

definition dss_of :: "server \<Rightarrow> int \<Rightarrow> dss option" where
  "dss_of st dev =
     (case last_seq st dev of
        None \<Rightarrow> None
      | Some l \<Rightarrow>
          (case duplicate_counts st dev of
             None \<Rightarrow> None
           | Some c \<Rightarrow>
               (case gap_counts st dev of
                  None \<Rightarrow> None
                | Some g \<Rightarrow> Some \<lparr> lastSeen = l, duplicateCount = c, gapCount = g \<rparr>)))"

text \<open>
  A device known to \<open>last_seq\<close> has both counters (the three are created together),
  and its recorded sequence number is a 16-bit value (it came out of a header).
\<close>

definition seq_ok :: "server \<Rightarrow> int \<Rightarrow> bool" where
  "seq_ok st dev =
     (case last_seq st dev of
        None \<Rightarrow> True
      | Some l \<Rightarrow> 0 \<le> l \<and> l < 65536 \<and> duplicate_counts st dev \<noteq> None
                  \<and> gap_counts st dev \<noteq> None)"

definition flag_of :: "bool \<Rightarrow> int" where
  "flag_of b = (if b then 1 else 0)"

subsection \<open>Reorder buffer\<close>

text \<open>The entries a device has pending in the reorder buffer.\<close>

definition pending :: "server \<Rightarrow> int \<Rightarrow> entry list" where
  "pending st dev = (case reorder_buffer st dev of None \<Rightarrow> [] | Some b \<Rightarrow> b)"

subsection \<open>Heartbeats\<close>

text \<open>
  The mean of the consecutive gaps of a window, as the specification words it, with its
  seed value for a window of fewer than two samples: the sum of the gaps between
  neighbours, divided by their number, in the given float arithmetic.
\<close>

definition mean_gaps :: "float_ops \<Rightarrow> real list \<Rightarrow> real" where
  "mean_gaps ops w =
     (if length w < 2 then 1
      else f_div ops (f_sum ops (map (\<lambda>i. f_sub ops (w ! (i + 1)) (w ! i)) [0..<length w - 1]))
                     (real (length w - 1)))"

definition window :: "server \<Rightarrow> int \<Rightarrow> real list" where
  "window st dev = (case device_heartbeats st dev of None \<Rightarrow> [] | Some ts \<Rightarrow> ts)"

definition prev_status_of :: "server \<Rightarrow> int \<Rightarrow> status" where
  "prev_status_of st dev = (case device_status st dev of None \<Rightarrow> ONLINE | Some p \<Rightarrow> p)"

subsection \<open>Replies that are no acknowledgement\<close>

text \<open>
  An outcome of \<open>recvfrom\<close> that leaves the batch unacknowledged: a timeout, a datagram
  that is no ACK frame, or an ACK frame for another sequence number.
\<close>

definition unanswered :: "(byte list \<Rightarrow> int option) \<Rightarrow> int \<Rightarrow> reply \<Rightarrow> bool" where
  "unanswered to_int sq r =
     (case r of
        Timeout \<Rightarrow> True
      | Data d \<Rightarrow>
          (if take 3 d = ACK_prefix
           then (case to_int (drop 4 d) of None \<Rightarrow> False | Some k \<Rightarrow> k \<noteq> sq)
           else True))"

definition timeouts :: "reply list \<Rightarrow> nat" where
  "timeouts rs = length (filter (\<lambda>r. r = Timeout) rs)"

section \<open>Concrete states and datagrams\<close>

text \<open>A server that has seen sequence number 10 from device 1001.\<close>

definition st_seen10 :: server where
  "st_seen10 = server_init\<lparr>last_seq := [1001 \<mapsto> 10], duplicate_counts := [1001 \<mapsto> 0],
                           gap_counts := [1001 \<mapsto> 0]\<rparr>"

text \<open>The sensor of device 1001, batch size 3, constructed at time 1700000000.\<close>

definition sensor_1001 :: sensor where
  "sensor_1001 = sensor_init 1001 1 3 15 1700000000"

text \<open>
  A heartbeat entry of device 1001, and a server holding four of them whose send times are
  out of order and tie at 10.
\<close>

definition hb_entry :: "int \<Rightarrow> int \<Rightarrow> entry" where
  "hb_entry ts sq =
     \<lparr> e_timestamp = ts, e_device_id = 1001, e_seq = sq, e_msg_type = 2, e_payload = [],
       e_duplicate_flag = 0, e_gap_flag = 0, e_flags = 0, e_reading_count = 0 \<rparr>"

definition st_four_pending :: server where
  "st_four_pending =
     server_init\<lparr>reorder_buffer :=
       [1001 \<mapsto> [hb_entry 30 1, hb_entry 10 2, hb_entry 20 3, hb_entry 10 4]]\<rparr>"

text \<open>
  Servers that have received heartbeats from device 1001: ten of them at times
  0, 11, 12, ..., 19, and five of them one time unit apart.
\<close>

definition st_ten_beats :: server where
  "st_ten_beats =
     server_init\<lparr>device_heartbeats := [1001 \<mapsto> [0, 11, 12, 13, 14, 15, 16, 17, 18, 19]],
                 device_status := [1001 \<mapsto> ONLINE],
                 status_csv := [(1001, 0, ONLINE)]\<rparr>"

definition st_five_beats :: server where
  "st_five_beats =
     server_init\<lparr>device_heartbeats := [1001 \<mapsto> [0, 1, 2, 3, 4]],
                 device_status := [1001 \<mapsto> ONLINE],
                 status_csv := [(1001, 0, ONLINE)]\<rparr>"

text \<open>
  A datagram with a well-formed header of message type 3 (neither DATA nor HEARTBEAT), from
  device 1001 with sequence number 15.
\<close>

definition unknown_type_datagram :: "byte list" where
  "unknown_type_datagram = [19, 3, 233, 0, 15, 101, 83, 241, 0, 0, 0, 0, 5, 220]"

text \<open>
  The sensor of device 1001 with a full batch that holds a reading above the threshold, and
  one whose readings are all below it; the packets they encode at time 1700000000; and a
  stand-in for \<open>int()\<close> that rejects every input.
\<close>

definition sensor_hot :: sensor where
  "sensor_hot = sensor_1001\<lparr>batch_buffer := [1500, 2200, 3600]\<rparr>"

definition sensor_mild :: sensor where
  "sensor_mild = sensor_1001\<lparr>batch_buffer := [1500, 2200, 3400]\<rparr>"

definition hot_packet :: "byte list" where
  "hot_packet = [17, 3, 233, 0, 1, 101, 83, 241, 0, 2, 0, 0, 5, 220, 0, 0, 8, 152, 0, 0, 14, 16]"

definition mild_packet :: "byte list" where
  "mild_packet = [17, 3, 233, 0, 1, 101, 83, 241, 0, 0, 0, 0, 5, 220, 0, 0, 8, 152, 0, 0, 13, 72]"

definition no_int :: "byte list \<Rightarrow> int option" where
  "no_int d = None"

text \<open>
  A second stand-in for \<open>int()\<close>, for the replies used below: it reads a non-empty
  string of ASCII digits as a decimal number, as \<open>int()\<close> does, and rejects the empty
  string, as \<open>int()\<close> does. It rejects everything else too, which is not claimed of
  \<open>int()\<close>. The replies are \<open>b"ACK 7"\<close>, \<open>b"ACK 1"\<close> and \<open>b"ACK"\<close>.
\<close>

definition is_digit :: "byte \<Rightarrow> bool" where
  "is_digit b = (48 \<le> b \<and> b \<le> 57)"

definition int_of_digits :: "byte list \<Rightarrow> int option" where
  "int_of_digits d =
     (if d \<noteq> [] \<and> list_all is_digit d
      then Some (foldl (\<lambda>k b. 10 * k + (uint b - 48)) 0 d) else None)"

definition ack_7 :: reply where
  "ack_7 = Data [65, 67, 75, 32, 55]"

definition ack_1 :: reply where
  "ack_1 = Data [65, 67, 75, 32, 49]"

definition bare_ack :: reply where
  "bare_ack = Data [65, 67, 75]"

text \<open>
  A humidity sensor (base-class sender) handed a batch of 50 readings, and the sensor of
  device 1001 one reading short of a full batch.
\<close>

definition sensor_fifty :: sensor where
  "sensor_fifty = (sensor_init 1002 1 47 15 1700000000)\<lparr>batch_buffer := replicate 50 2000\<rparr>"

definition sensor_two :: sensor where
  "sensor_two = sensor_1001\<lparr>batch_buffer := [1500, 2200]\<rparr>"

section \<open>Verified properties\<close>

subsection \<open>Arithmetic of the bit masks\<close>

lemma and_65535: "(x::int) AND 65535 = x mod 65536"
proof -
  have "x AND mask 16 = x mod 2 ^ 16"
    by (simp add: take_bit_eq_mod flip: take_bit_eq_mask)
  then show ?thesis by (simp add: mask_eq_exp_minus_1)
qed

subsection \<open>Sequence tracker\<close>

lemma detect_seq_state_classify:
  assumes ok: "seq_ok st dev" and lo: "0 \<le> sq" and hi: "sq < 65536"
  shows "\<exists>st'. detect_seq_state st dev sq =
            Inr (st', flag_of (isDuplicate (snd (classify_spec (dss_of st dev) sq))),
                      flag_of (isGap (snd (classify_spec (dss_of st dev) sq))),
                      gapSize (snd (classify_spec (dss_of st dev) sq)))
          \<and> dss_of st' dev = Some (fst (classify_spec (dss_of st dev) sq))
          \<and> seq_ok st' dev
          \<and> (\<forall>d. d \<noteq> dev \<longrightarrow> dss_of st' d = dss_of st d)
          \<and> (dss_of st dev = Some (fst (classify_spec (dss_of st dev) sq)) \<longrightarrow> st' = st)"
proof (cases "last_seq st dev")
  case None
  then show ?thesis using lo hi
    by (simp add: detect_seq_state_def classify_spec_def dss_of_def seq_ok_def
        no_dup_no_gap_def flag_of_def split: option.split)
next
  case (Some l)
  with ok obtain c g where c: "duplicate_counts st dev = Some c"
    and g: "gap_counts st dev = Some g" and l: "0 \<le> l" "l < 65536"
    by (auto simp: seq_ok_def)
  have m1: "sq mod 65536 = sq" and m2: "l mod 65536 = l" using lo hi l by simp_all
  show ?thesis using Some c g l lo hi
    by (simp add: detect_seq_state_def classify_spec_def dss_of_def seq_ok_def
        no_dup_no_gap_def flag_of_def and_65535 m1 m2 split: option.split)
qed

text \<open>
  Claim C1. For a device whose recorded state is well formed and a 16-bit sequence
  number, \<open>detect_seq_state\<close> returns exactly what the reference classifier of the
  specification returns: the flags and gap size agree, the device's record afterwards is
  the reference's record (duplicate: counter plus one and \<open>lastSeen\<close> kept; in order,
  also from 65535 to 0: \<open>lastSeen\<close> advanced; gap: size \<open>s - L - 1\<close>, \<open>lastSeen\<close>
  advanced and the gap counter accumulated; otherwise nothing changes; first observation:
  \<open>lastSeen\<close> recorded). Other devices are untouched, and when the reference leaves the
  record as it was, the whole server is unchanged.
\<close>

theorem detect_seq_state_refines_classify:
  assumes ok: "seq_ok st dev" and lo: "0 \<le> sq" and hi: "sq < 65536"
  shows "\<exists>st'. detect_seq_state st dev sq =
            Inr (st', flag_of (isDuplicate (snd (classify_spec (dss_of st dev) sq))),
                      flag_of (isGap (snd (classify_spec (dss_of st dev) sq))),
                      gapSize (snd (classify_spec (dss_of st dev) sq)))
          \<and> dss_of st' dev = Some (fst (classify_spec (dss_of st dev) sq))
          \<and> seq_ok st' dev
          \<and> (\<forall>d. d \<noteq> dev \<longrightarrow> dss_of st' d = dss_of st d)
          \<and> (dss_of st dev = Some (fst (classify_spec (dss_of st dev) sq)) \<longrightarrow> st' = st)"
  using ok lo hi by (rule detect_seq_state_classify)

theorem detect_seq_state_refines_classify_witness:
  "seq_ok st_seen10 1001 \<and> (0::int) \<le> 15 \<and> (15::int) < 65536 \<and>
   (\<exists>st'. detect_seq_state st_seen10 1001 15 = Inr (st', 0, 1, 4)
          \<and> dss_of st' 1001 = Some \<lparr> lastSeen = 15, duplicateCount = 0, gapCount = 4 \<rparr>)"
proof -
  have ok: "seq_ok st_seen10 1001"
    by (simp add: seq_ok_def st_seen10_def server_init_def)
  have d: "dss_of st_seen10 1001 = Some \<lparr> lastSeen = 10, duplicateCount = 0, gapCount = 0 \<rparr>"
    by (simp add: dss_of_def st_seen10_def server_init_def)
  have c: "classify_spec (Some \<lparr> lastSeen = 10, duplicateCount = 0, gapCount = 0 \<rparr>) 15 =
             (\<lparr> lastSeen = 15, duplicateCount = 0, gapCount = 4 \<rparr>,
              \<lparr> isDuplicate = False, isGap = True, gapSize = 4 \<rparr>)"
    by (simp add: classify_spec_def)
  from detect_seq_state_refines_classify [OF ok, of 15]
  have "\<exists>st'. detect_seq_state st_seen10 1001 15 = Inr (st', 0, 1, 4)
          \<and> dss_of st' 1001 = Some \<lparr> lastSeen = 15, duplicateCount = 0, gapCount = 4 \<rparr>"
    unfolding d c by (simp add: flag_of_def) blast
  with ok show ?thesis by simp
qed

subsection \<open>Packet codec\<close>

lemma uint_byte_of_int: "uint (word_of_int k :: byte) = k mod 256"
  by (simp add: uint_word_of_int)

lemma unpack_I_be4:
  assumes "0 \<le> v" "v < 4294967296"
  shows "unpack_I (word_of_int (v div 16777216)) (word_of_int (v div 65536))
           (word_of_int (v div 256)) (word_of_int v) = v"
proof -
  have "v div 16777216 mod 256 = v div 16777216" using assms by simp
  moreover have "v div 65536 = (v div 16777216) * 256 + v div 65536 mod 256"
    using zdiv_zmult2_eq [of 256 v 65536] by simp
  moreover have "v div 256 = (v div 65536) * 256 + v div 256 mod 256"
    using zdiv_zmult2_eq [of 256 v 256] by simp
  moreover have "v = (v div 256) * 256 + v mod 256" by simp
  ultimately show ?thesis
    unfolding unpack_I_def uint_byte_of_int by linarith
qed

lemma unpack_H_be2:
  assumes "0 \<le> v" "v < 65536"
  shows "unpack_H (word_of_int (v div 256)) (word_of_int v) = v"
proof -
  have "v div 256 mod 256 = v div 256" using assms by simp
  moreover have "v = (v div 256) * 256 + v mod 256" by simp
  ultimately show ?thesis
    unfolding unpack_H_def uint_byte_of_int by linarith
qed

lemma parse_values_append4:
  "parse_values ([a, b, c, d] @ rest) = unpack_I a b c d # parse_values rest"
  by simp

lemma pack_readings_ok:
  "list_all (\<lambda>v. 0 \<le> v \<and> v < 4294967296) vs \<Longrightarrow>
     \<exists>p. pack_readings vs = Inr p \<and> parse_values p = vs \<and> length p = 4 * length vs"
proof (induction vs)
  case Nil
  then show ?case by simp
next
  case (Cons v vs)
  then obtain p where p: "pack_readings vs = Inr p" "parse_values p = vs"
    "length p = 4 * length vs" by auto
  from Cons.prems have v: "0 \<le> v" "v < 4294967296" by simp_all
  show ?case using p v
    by (simp add: pack_I_def be4_def unpack_I_be4)
qed

lemma pack_readings_Inr:
  "pack_readings vs = Inr p \<Longrightarrow>
     length p = 4 * length vs \<and> parse_values p = vs
     \<and> list_all (\<lambda>v. 0 \<le> v \<and> v < 4294967296) vs"
proof (induction vs arbitrary: p)
  case Nil
  then show ?case by simp
next
  case (Cons v vs)
  from Cons.prems obtain q where q: "pack_readings vs = Inr q" and v: "0 \<le> v" "v < 4294967296"
    and p: "p = be4 v @ q"
    by (auto simp: pack_I_def split: sum.splits if_splits)
  from Cons.IH [OF q] v p show ?case by (simp add: be4_def unpack_I_be4)
qed

lemma pack_readings_take:
  assumes "pack_readings vs = Inr p"
  shows "\<exists>q. pack_readings (take n vs) = Inr q \<and> parse_values q = take n vs
             \<and> length q = 4 * length (take n vs)"
proof -
  from pack_readings_Inr [OF assms] have "list_all (\<lambda>v. 0 \<le> v \<and> v < 4294967296) vs" by simp
  then have "list_all (\<lambda>v. 0 \<le> v \<and> v < 4294967296) (take n vs)"
    by (auto simp: list_all_iff dest: in_set_takeD)
  from pack_readings_ok [OF this] show ?thesis .
qed

lemma decode_header_pack:
  assumes "pack_header raw_byte dev sq ts fl = Inr h"
  shows "decode_header (h @ payload) =
           Inr (drop_bit 4 raw_byte AND 15, raw_byte AND 15, dev, sq, ts, fl, payload)"
proof -
  from assms have r: "0 \<le> raw_byte" "raw_byte < 256" "0 \<le> dev" "dev < 65536"
    "0 \<le> sq" "sq < 65536" "0 \<le> ts" "ts < 4294967296" "0 \<le> fl" "fl < 256"
    and h: "h = [word_of_int raw_byte] @ be2 dev @ be2 sq @ be4 ts @ [word_of_int fl]"
    by (auto simp: pack_header_def split: if_splits)
  have len: "length h = 10" by (simp add: h be2_def be4_def)
  have u: "unpack_header h = Inr (raw_byte, dev, sq, ts, fl)"
    using r by (simp add: unpack_header_def HEADER_SIZE_def h be2_def be4_def
        unpack_H_be2 unpack_I_be4 uint_byte_of_int)
  show ?thesis using len u by (simp add: decode_header_def HEADER_SIZE_def)
qed

lemma py_int_range: "0 \<le> now \<Longrightarrow> now < 4294967296 \<Longrightarrow> 0 \<le> py_int now \<and> py_int now < 4294967296"
  by (simp add: py_int_def floor_less_iff)

lemma build_packet_data:
  assumes "0 \<le> flags" "flags < 256" "0 \<le> device_id s" "device_id s < 65536"
    "0 \<le> now" "now < 4294967296"
  shows "build_packet s now 1 payload flags =
           Inr ([17] @ be2 (device_id s) @ be2 ((seq s + 1) mod 65536) @ be4 (py_int now)
                  @ [word_of_int flags] @ payload, s\<lparr>seq := (seq s + 1) mod 65536\<rparr>)"
  using assms py_int_range [of now]
  by (simp add: build_packet_def pack_header_def and_65535)

text \<open>
  Claim C2. A DATA packet built by the sensor from readings that are 32-bit unsigned
  values, with any flags byte, decodes on the server to message type 1, the sensor's
  device id, the sequence number the sensor stamped, the same flags byte and, through
  \<open>parse_values\<close>, the same list of readings. (The statement does not need the payload
  to fit one packet.)
\<close>

theorem data_packet_roundtrip:
  assumes rd: "list_all (\<lambda>v. 0 \<le> v \<and> v < 4294967296) readings"
    and fl: "0 \<le> flags" "flags < 256"
    and dev: "0 \<le> device_id s" "device_id s < 65536"
    and ts: "0 \<le> now" "now < 4294967296"
  shows "\<exists>payload pkt s'.
           pack_readings readings = Inr payload
         \<and> build_packet s now 1 payload flags = Inr (pkt, s')
         \<and> decode_header pkt = Inr (1, 1, device_id s, seq s', py_int now, flags, payload)
         \<and> parse_values payload = readings"
proof -
  from pack_readings_ok [OF rd] obtain payload where
    p: "pack_readings readings = Inr payload" "parse_values payload = readings" by blast
  have "0 \<le> (seq s + 1) AND 65535 \<and> (seq s + 1) AND 65535 < 65536"
    by (simp add: and_65535)
  with fl dev py_int_range [OF ts] obtain h where
    h: "pack_header 17 (device_id s) ((seq s + 1) AND 65535) (py_int now) flags = Inr h"
    by (simp add: pack_header_def)
  have b: "build_packet s now 1 payload flags = Inr (h @ payload, s\<lparr>seq := (seq s + 1) AND 65535\<rparr>)"
    using h by (simp add: build_packet_def)
  have "decode_header (h @ payload) =
          Inr (1, 1, device_id s, (seq s + 1) AND 65535, py_int now, flags, payload)"
    using decode_header_pack [OF h, of payload] by simp
  with p b show ?thesis by simp
qed

theorem data_packet_roundtrip_witness:
  "list_all (\<lambda>v. 0 \<le> v \<and> v < 4294967296) [1500, 2200, 3600 :: int]
   \<and> 0 \<le> device_id sensor_1001 \<and> device_id sensor_1001 < 65536
   \<and> (\<exists>payload pkt s'.
           pack_readings [1500, 2200, 3600] = Inr payload
         \<and> build_packet sensor_1001 1700000000 1 payload 2 = Inr (pkt, s')
         \<and> decode_header pkt = Inr (1, 1, 1001, seq s', 1700000000, 2, payload)
         \<and> parse_values payload = [1500, 2200, 3600])"
proof -
  have rd: "list_all (\<lambda>v. 0 \<le> v \<and> v < 4294967296) [1500, 2200, 3600 :: int]" by simp
  have dev: "0 \<le> device_id sensor_1001" "device_id sensor_1001 < 65536"
    by (simp_all add: sensor_1001_def sensor_init_def)
  have d: "device_id sensor_1001 = 1001" by (simp add: sensor_1001_def sensor_init_def)
  have t: "py_int 1700000000 = 1700000000" by (simp add: py_int_def)
  from data_packet_roundtrip [OF rd _ _ dev, of 2 1700000000]
  have "\<exists>payload pkt s'.
           pack_readings [1500, 2200, 3600] = Inr payload
         \<and> build_packet sensor_1001 1700000000 1 payload 2 = Inr (pkt, s')
         \<and> decode_header pkt = Inr (1, 1, 1001, seq s', 1700000000, 2, payload)
         \<and> parse_values payload = [1500, 2200, 3600]"
    unfolding d t by simp
  with rd dev show ?thesis by blast
qed

subsection \<open>Reorder buffer\<close>

lemma flush_rows_eq:
  "flush_rows t es = map (row_of t) (filter (\<lambda>x. e_duplicate_flag x = 0) es)"
  by (induction es) simp_all

lemma store_entry_below:
  "length (pending st (e_device_id e)) + 1 < 5 \<Longrightarrow>
     store_entry st e now =
       Inr (st\<lparr>reorder_buffer :=
                 (reorder_buffer st)(e_device_id e \<mapsto> pending st (e_device_id e) @ [e])\<rparr>)"
  by (cases "reorder_buffer st (e_device_id e)")
     (simp_all add: store_entry_def pending_def Let_def)

lemma store_entry_flush:
  "length (pending st (e_device_id e)) + 1 \<ge> 5 \<Longrightarrow>
     store_entry st e now =
       Inr (st\<lparr>log_file := log_file st @ flush_rows (py_int now)
                    (sort_key e_timestamp (pending st (e_device_id e) @ [e])),
               reorder_buffer := (reorder_buffer st)(e_device_id e \<mapsto> [])\<rparr>)"
  by (cases "reorder_buffer st (e_device_id e)")
     (simp_all add: store_entry_def pending_def Let_def flush_reordered_def)

lemma r_timestamp_sent_row_of: "r_timestamp_sent (row_of t x) = e_timestamp x"
  by (simp add: row_of_def)

lemma r_duplicate_flag_row_of: "r_duplicate_flag (row_of t x) = e_duplicate_flag x"
  by (simp add: row_of_def)

lemma sorted_rows:
  "sorted (map r_timestamp_sent (flush_rows t (sort_key e_timestamp es)))"
proof -
  have "map r_timestamp_sent (flush_rows t (sort_key e_timestamp es)) =
          map e_timestamp (filter (\<lambda>x. e_duplicate_flag x = 0) (sort_key e_timestamp es))"
    by (simp add: flush_rows_eq o_def r_timestamp_sent_row_of)
  also have "\<dots> = map e_timestamp (sort_key e_timestamp (filter (\<lambda>x. e_duplicate_flag x = 0) es))"
    by (simp add: filter_sort)
  finally show ?thesis by simp
qed

lemma stable_rows:
  "filter (\<lambda>r. r_timestamp_sent r = k) (flush_rows t (sort_key e_timestamp es)) =
     map (row_of t) (filter (\<lambda>x. e_duplicate_flag x = 0 \<and> e_timestamp x = k) es)"
proof -
  have "filter (\<lambda>r. r_timestamp_sent r = k) (flush_rows t (sort_key e_timestamp es)) =
          map (row_of t) (filter (\<lambda>x. e_timestamp x = k)
             (filter (\<lambda>x. e_duplicate_flag x = 0) (sort_key e_timestamp es)))"
    by (simp add: flush_rows_eq filter_map o_def r_timestamp_sent_row_of)
  also have "filter (\<lambda>x. e_timestamp x = k)
             (filter (\<lambda>x. e_duplicate_flag x = 0) (sort_key e_timestamp es)) =
        filter (\<lambda>x. e_duplicate_flag x = 0)
             (filter (\<lambda>x. e_timestamp x = k) (sort_key e_timestamp es))"
    by (simp add: conj_commute)
  also have "\<dots> = filter (\<lambda>x. e_duplicate_flag x = 0) (filter (\<lambda>x. e_timestamp x = k) es)"
    by (simp only: sort_key_stable)
  also have "\<dots> = filter (\<lambda>x. e_duplicate_flag x = 0 \<and> e_timestamp x = k) es"
    by (induction es) simp_all
  finally show ?thesis .
qed

text \<open>
  Claim C3. Storing an entry for a device appends it to the device's pending entries.
  While fewer than five are pending nothing is logged. When the count reaches five, the
  pending entries are sorted by their send time, the rows appended to the log are those of
  the entries whose duplicate flag is 0, in the sorted order: ascending send times, and
  entries with equal send time in their arrival order (the sort is stable). No row with a
  duplicate flag is logged, the device's buffer is empty afterwards, and the buffers of
  other devices are untouched.
\<close>

theorem reorder_flush:
  fixes st :: server and e :: entry
  defines "dev \<equiv> e_device_id e"
  defines "buf \<equiv> pending st (e_device_id e) @ [e]"
  shows "(length buf < 5 \<longrightarrow>
            store_entry st e now = Inr (st\<lparr>reorder_buffer := (reorder_buffer st)(dev \<mapsto> buf)\<rparr>))
       \<and> (length buf \<ge> 5 \<longrightarrow>
            (\<exists>st' rows.
                store_entry st e now = Inr st'
              \<and> log_file st' = log_file st @ rows
              \<and> rows = map (row_of (py_int now))
                         (filter (\<lambda>x. e_duplicate_flag x = 0) (sort_key e_timestamp buf))
              \<and> sorted (map r_timestamp_sent rows)
              \<and> (\<forall>k. filter (\<lambda>r. r_timestamp_sent r = k) rows =
                       map (row_of (py_int now))
                         (filter (\<lambda>x. e_duplicate_flag x = 0 \<and> e_timestamp x = k) buf))
              \<and> (\<forall>r \<in> set rows. r_duplicate_flag r = 0)
              \<and> reorder_buffer st' dev = Some []
              \<and> (\<forall>d. d \<noteq> dev \<longrightarrow> reorder_buffer st' d = reorder_buffer st d)))"
proof (intro conjI impI)
  assume "length buf < 5"
  then show "store_entry st e now = Inr (st\<lparr>reorder_buffer := (reorder_buffer st)(dev \<mapsto> buf)\<rparr>)"
    using store_entry_below [of st e now] by (simp add: buf_def dev_def)
next
  assume "5 \<le> length buf"
  then have s: "store_entry st e now =
       Inr (st\<lparr>log_file := log_file st @ flush_rows (py_int now) (sort_key e_timestamp buf),
               reorder_buffer := (reorder_buffer st)(dev \<mapsto> [])\<rparr>)"
    using store_entry_flush [of st e now] by (simp add: buf_def dev_def)
  let ?rows = "flush_rows (py_int now) (sort_key e_timestamp buf)"
  have a: "?rows = map (row_of (py_int now))
                         (filter (\<lambda>x. e_duplicate_flag x = 0) (sort_key e_timestamp buf))"
    by (rule flush_rows_eq)
  have b: "sorted (map r_timestamp_sent ?rows)" by (rule sorted_rows)
  have c: "\<forall>k. filter (\<lambda>r. r_timestamp_sent r = k) ?rows =
                       map (row_of (py_int now))
                         (filter (\<lambda>x. e_duplicate_flag x = 0 \<and> e_timestamp x = k) buf)"
    by (simp add: stable_rows)
  have d: "\<forall>r \<in> set ?rows. r_duplicate_flag r = 0"
    by (auto simp: flush_rows_eq r_duplicate_flag_row_of)
  show "\<exists>st' rows.
                store_entry st e now = Inr st'
              \<and> log_file st' = log_file st @ rows
              \<and> rows = map (row_of (py_int now))
                         (filter (\<lambda>x. e_duplicate_flag x = 0) (sort_key e_timestamp buf))
              \<and> sorted (map r_timestamp_sent rows)
              \<and> (\<forall>k. filter (\<lambda>r. r_timestamp_sent r = k) rows =
                       map (row_of (py_int now))
                         (filter (\<lambda>x. e_duplicate_flag x = 0 \<and> e_timestamp x = k) buf))
              \<and> (\<forall>r \<in> set rows. r_duplicate_flag r = 0)
              \<and> reorder_buffer st' dev = Some []
              \<and> (\<forall>d. d \<noteq> dev \<longrightarrow> reorder_buffer st' d = reorder_buffer st d)"
    apply (rule exI [where x = "st\<lparr>log_file := log_file st @ ?rows,
               reorder_buffer := (reorder_buffer st)(dev \<mapsto> [])\<rparr>"])
    apply (rule exI [where x = ?rows])
    using s a b c d by simp
qed

theorem reorder_flush_witness:
  "length (pending st_four_pending (e_device_id (hb_entry 5 5)) @ [hb_entry 5 5]) \<ge> 5
   \<and> (\<exists>st'. store_entry st_four_pending (hb_entry 5 5) 1700000000 = Inr st'
          \<and> map r_seq (log_file st') = [5, 2, 4, 3, 1]
          \<and> map r_timestamp_sent (log_file st') = [5, 10, 10, 20, 30]
          \<and> reorder_buffer st' 1001 = Some [])"
proof -
  have p: "pending st_four_pending 1001 = [hb_entry 30 1, hb_entry 10 2, hb_entry 20 3, hb_entry 10 4]"
    by (simp add: pending_def st_four_pending_def server_init_def)
  have d: "e_device_id (hb_entry 5 5) = 1001" by (simp add: hb_entry_def)
  have s: "sort_key e_timestamp [hb_entry 30 1, hb_entry 10 2, hb_entry 20 3, hb_entry 10 4, hb_entry 5 5]
           = [hb_entry 5 5, hb_entry 10 2, hb_entry 10 4, hb_entry 20 3, hb_entry 30 1]"
    by (simp add: hb_entry_def)
  have l: "log_file st_four_pending = []" by (simp add: st_four_pending_def server_init_def)
  have len: "length (pending st_four_pending (e_device_id (hb_entry 5 5)) @ [hb_entry 5 5]) \<ge> 5"
    by (simp add: d p)
  from reorder_flush [of st_four_pending "hb_entry 5 5" 1700000000] len
  obtain st' rows where r: "store_entry st_four_pending (hb_entry 5 5) 1700000000 = Inr st'"
    "log_file st' = log_file st_four_pending @ rows"
    "rows = map (row_of (py_int 1700000000))
       (filter (\<lambda>x. e_duplicate_flag x = 0)
          (sort_key e_timestamp (pending st_four_pending (e_device_id (hb_entry 5 5)) @ [hb_entry 5 5])))"
    "reorder_buffer st' (e_device_id (hb_entry 5 5)) = Some []"
    by blast
  have b: "pending st_four_pending (e_device_id (hb_entry 5 5)) @ [hb_entry 5 5] =
      [hb_entry 30 1, hb_entry 10 2, hb_entry 20 3, hb_entry 10 4, hb_entry 5 5]"
    unfolding d p by simp
  have rows: "rows = map (row_of 1700000000)
      [hb_entry 5 5, hb_entry 10 2, hb_entry 10 4, hb_entry 20 3, hb_entry 30 1]"
    unfolding r(3) b s by (simp add: hb_entry_def py_int_def)
  have "map r_seq (log_file st') = [5, 2, 4, 3, 1]"
    "map r_timestamp_sent (log_file st') = [5, 10, 10, 20, 30]"
    unfolding r(2) l rows by (simp_all add: hb_entry_def row_of_def)
  with r(1) r(4) len show ?thesis by (simp add: d)
qed

subsection \<open>Heartbeat liveness monitor\<close>

lemma intervals_nth:
  "intervals ops ts = map (\<lambda>i. f_sub ops (ts ! (i + 1)) (ts ! i)) [0..<length ts - 1]"
proof (rule nth_equalityI)
  show "length (intervals ops ts) =
          length (map (\<lambda>i. f_sub ops (ts ! (i + 1)) (ts ! i)) [0..<length ts - 1])"
    by (simp add: intervals_def)
next
  fix i assume "i < length (intervals ops ts)"
  then have i: "i < length ts - 1" by (simp add: intervals_def)
  then show "intervals ops ts ! i =
               map (\<lambda>i. f_sub ops (ts ! (i + 1)) (ts ! i)) [0..<length ts - 1] ! i"
    by (simp add: intervals_def nth_butlast nth_tl)
qed

lemma avg_interval_mean_gaps: "avg_interval ops ts = mean_gaps ops ts"
  by (simp add: avg_interval_def mean_gaps_def intervals_nth)

lemma handle_heartbeat_avg:
  "snd (handle_heartbeat ops st dev now) = avg_interval ops (window st dev @ [now])"
  by (simp add: handle_heartbeat_def Let_def window_def)

lemma handle_heartbeat_window:
  "window (fst (handle_heartbeat ops st dev now)) dev = last10 (window st dev @ [now])"
  by (simp add: handle_heartbeat_def Let_def window_def)

lemma second_newest: "w \<noteq> [] \<Longrightarrow> (w @ [t]) ! (length (w @ [t]) - 2) = last w"
  by (simp add: nth_append last_conv_nth)

text \<open>The status a heartbeat computes, and what it does with it.\<close>

lemma handle_heartbeat_status:
  fixes ops :: float_ops and st :: server and dev :: int and now :: real
  defines "new \<equiv> (if prev_status_of st dev = ONLINE \<and> window st dev \<noteq> []
                       \<and> f_sub ops now (last (window st dev))
                            > f_mul ops 2 (mean_gaps ops (window st dev @ [now]))
                    then OFFLINE else ONLINE)"
  shows "device_status (fst (handle_heartbeat ops st dev now)) dev = Some new"
    and "status_csv (fst (handle_heartbeat ops st dev now)) =
           status_csv st @ (if new \<noteq> prev_status_of st dev \<or> device_status st dev = None
                            then [(dev, py_int now, new)] else [])"
proof -
  let ?ts = "window st dev @ [now]"
  have len: "(2 \<le> length ?ts) = (window st dev \<noteq> [])" by (cases "window st dev") simp_all
  have nth: "window st dev \<noteq> [] \<Longrightarrow> ?ts ! (length ?ts - 2) = last (window st dev)"
    by (rule second_newest)
  have code: "(if prev_status_of st dev = ONLINE \<and> 2 \<le> length ?ts
                  \<and> f_sub ops now (?ts ! (length ?ts - 2)) > f_mul ops 2 (avg_interval ops ?ts)
               then OFFLINE else ONLINE) = new"
    unfolding new_def len avg_interval_mean_gaps using nth by auto
  have run: "handle_heartbeat ops st dev now =
      (if prev_status_of st dev \<noteq> new \<or> device_status st dev = None
       then st\<lparr>device_heartbeats := (device_heartbeats st)(dev \<mapsto> last10 ?ts),
               device_status := (device_status st)(dev \<mapsto> new),
               status_csv := status_csv st @ [(dev, py_int now, new)]\<rparr>
       else st\<lparr>device_heartbeats := (device_heartbeats st)(dev \<mapsto> last10 ?ts)\<rparr>,
       avg_interval ops ?ts)"
    unfolding code [symmetric]
    by (simp add: handle_heartbeat_def Let_def window_def prev_status_of_def)
  show "device_status (fst (handle_heartbeat ops st dev now)) dev = Some new"
    unfolding run by (cases "device_status st dev") (auto simp: prev_status_of_def)
  show "status_csv (fst (handle_heartbeat ops st dev now)) =
           status_csv st @ (if new \<noteq> prev_status_of st dev \<or> device_status st dev = None
                            then [(dev, py_int now, new)] else [])"
    unfolding run by auto
qed

lemma window_ten_beats:
  "window st_ten_beats 1001 = [0, 11, 12, 13, 14, 15, 16, 17, 18, 19]"
  by (simp add: window_def st_ten_beats_def server_init_def)

lemma avg_ten_beats:
  "avg_interval exact_ops ([0, 11, 12, 13, 14, 15, 16, 17, 18, 19] @ [20]) = 2"
  by (simp add: avg_interval_def intervals_def exact_ops_def)

lemma window_five_beats: "window st_five_beats 1001 = [0, 1, 2, 3, 4]"
  by (simp add: window_def st_five_beats_def server_init_def)

lemma avg_five_beats: "avg_interval exact_ops ([0, 1, 2, 3, 4] @ [10]) = 2"
  by (simp add: avg_interval_def intervals_def exact_ops_def)

text \<open>
  Claim C4. In whatever float arithmetic the code runs, a heartbeat leaves the device
  OFFLINE exactly when the previous status (ONLINE for a device not yet classified) was
  ONLINE, at least two timestamps exist, and the newest timestamp minus the second newest
  exceeds twice the average interval, the mean of the consecutive gaps of the timestamps
  at hand. In every other case the device is ONLINE afterwards, in particular after any
  heartbeat of a device that was OFFLINE. A row (device, time, new status) is appended to
  the status log exactly when the new status differs from the previous one or the device
  had no status yet; otherwise the log is unchanged.
\<close>

theorem heartbeat_status_rule:
  fixes ops :: float_ops and st :: server and dev :: int and now :: real
  shows "(device_status (fst (handle_heartbeat ops st dev now)) dev = Some OFFLINE \<longleftrightarrow>
            prev_status_of st dev = ONLINE
          \<and> 2 \<le> length (window st dev @ [now])
          \<and> f_sub ops now (last (window st dev))
               > f_mul ops 2 (mean_gaps ops (window st dev @ [now])))
       \<and> (device_status (fst (handle_heartbeat ops st dev now)) dev \<noteq> Some OFFLINE \<longrightarrow>
            device_status (fst (handle_heartbeat ops st dev now)) dev = Some ONLINE)
       \<and> (device_status st dev = Some OFFLINE \<longrightarrow>
            device_status (fst (handle_heartbeat ops st dev now)) dev = Some ONLINE)
       \<and> (\<forall>new. device_status (fst (handle_heartbeat ops st dev now)) dev = Some new \<longrightarrow>
            status_csv (fst (handle_heartbeat ops st dev now)) =
              status_csv st @ (if new \<noteq> prev_status_of st dev \<or> device_status st dev = None
                               then [(dev, py_int now, new)] else []))"
proof -
  have len: "(2 \<le> length (window st dev @ [now])) = (window st dev \<noteq> [])"
    by (cases "window st dev") simp_all
  have off: "device_status st dev = Some OFFLINE \<Longrightarrow> prev_status_of st dev = OFFLINE"
    by (simp add: prev_status_of_def)
  note h = handle_heartbeat_status [of ops st dev now]
  show ?thesis
    unfolding h(1) h(2) len using off by auto
qed

theorem heartbeat_status_rule_witness:
  "prev_status_of st_five_beats 1001 = ONLINE
   \<and> 2 \<le> length (window st_five_beats 1001 @ [10])
   \<and> f_sub exact_ops 10 (last (window st_five_beats 1001)) = 6
   \<and> f_mul exact_ops 2 (mean_gaps exact_ops (window st_five_beats 1001 @ [10])) = 4
   \<and> device_status (fst (handle_heartbeat exact_ops st_five_beats 1001 10)) 1001 = Some OFFLINE
   \<and> status_csv (fst (handle_heartbeat exact_ops st_five_beats 1001 10)) =
        [(1001, 0, ONLINE), (1001, 10, OFFLINE)]"
proof -
  have p: "prev_status_of st_five_beats 1001 = ONLINE"
    "device_status st_five_beats 1001 = Some ONLINE"
    "status_csv st_five_beats = [(1001, 0, ONLINE)]"
    by (simp_all add: prev_status_of_def st_five_beats_def server_init_def)
  have g: "f_sub exact_ops 10 (last (window st_five_beats 1001)) = 6"
    unfolding window_five_beats by (simp add: exact_ops_def)
  have m: "f_mul exact_ops 2 (mean_gaps exact_ops (window st_five_beats 1001 @ [10])) = 4"
    unfolding window_five_beats avg_interval_mean_gaps [symmetric] avg_five_beats
    by (simp add: exact_ops_def)
  have l: "2 \<le> length (window st_five_beats 1001 @ [10])"
    unfolding window_five_beats by simp
  note r = heartbeat_status_rule [of exact_ops st_five_beats 1001 10]
  from r [THEN conjunct1] p(1) l g m
  have s: "device_status (fst (handle_heartbeat exact_ops st_five_beats 1001 10)) 1001
             = Some OFFLINE" by simp
  from r [THEN conjunct2, THEN conjunct2, THEN conjunct2, rule_format, OF s] p
  have "status_csv (fst (handle_heartbeat exact_ops st_five_beats 1001 10)) =
        [(1001, 0, ONLINE), (1001, 10, OFFLINE)]" by (simp add: py_int_def)
  with p(1) l g m s show ?thesis by simp
qed

text \<open>
  Claim C5, as the code has it. A heartbeat leaves the device with the last ten timestamps
  of its previous window extended by the new arrival, so the retained window never holds
  more than ten. The average interval is the mean of the consecutive gaps of the previous
  window extended by the new arrival, the list before it is cut to ten: up to eleven
  timestamps and ten gaps when the previous window held ten. With fewer than two samples
  the average is 1.
\<close>

theorem heartbeat_interval_window:
  fixes ops :: float_ops and st :: server and dev :: int and now :: real
  defines "ts \<equiv> window st dev @ [now]"
  shows "window (fst (handle_heartbeat ops st dev now)) dev = drop (length ts - 10) ts
       \<and> length (window (fst (handle_heartbeat ops st dev now)) dev) \<le> 10
       \<and> snd (handle_heartbeat ops st dev now) = mean_gaps ops ts
       \<and> (length ts < 2 \<longrightarrow> snd (handle_heartbeat ops st dev now) = 1)
       \<and> (length (window st dev) \<le> 10 \<longrightarrow> length ts \<le> 11)"
  by (simp add: handle_heartbeat_window handle_heartbeat_avg avg_interval_mean_gaps ts_def
      last10_def mean_gaps_def)

theorem heartbeat_interval_window_witness:
  "length (window st_ten_beats 1001) \<le> 10
   \<and> length (window st_ten_beats 1001 @ [20]) \<le> 11
   \<and> window (fst (handle_heartbeat exact_ops st_ten_beats 1001 20)) 1001
        = [11, 12, 13, 14, 15, 16, 17, 18, 19, 20]
   \<and> snd (handle_heartbeat exact_ops st_ten_beats 1001 20) = 2"
  using heartbeat_interval_window [of exact_ops st_ten_beats 1001 20] avg_ten_beats
  unfolding window_ten_beats avg_interval_mean_gaps by simp

text \<open>
  Claim C5 as stated fails: after ten heartbeats at 0, 11, 12, ..., 19 and one at 20 the
  average computed is 2 (ten gaps that sum to 20: the gap of 11 still counts), while the
  mean of the gaps of the ten retained timestamps 11, ..., 20 is 1. Every operation on
  these numbers is exact in binary floating point.
\<close>

theorem heartbeat_interval_counterexample:
  "snd (handle_heartbeat exact_ops st_ten_beats 1001 20) = 2
   \<and> window (fst (handle_heartbeat exact_ops st_ten_beats 1001 20)) 1001
        = [11, 12, 13, 14, 15, 16, 17, 18, 19, 20]
   \<and> mean_gaps exact_ops (window (fst (handle_heartbeat exact_ops st_ten_beats 1001 20)) 1001)
        = 1
   \<and> snd (handle_heartbeat exact_ops st_ten_beats 1001 20)
        \<noteq> mean_gaps exact_ops
             (window (fst (handle_heartbeat exact_ops st_ten_beats 1001 20)) 1001)"
proof -
  have a: "snd (handle_heartbeat exact_ops st_ten_beats 1001 20) = 2"
    unfolding handle_heartbeat_avg window_ten_beats by (rule avg_ten_beats)
  have b: "window (fst (handle_heartbeat exact_ops st_ten_beats 1001 20)) 1001
        = [11, 12, 13, 14, 15, 16, 17, 18, 19, 20]"
    unfolding handle_heartbeat_window window_ten_beats by (simp add: last10_def)
  have c: "mean_gaps exact_ops [11, 12, 13, 14, 15, 16, 17, 18, 19, 20] = 1"
    by (simp add: avg_interval_mean_gaps [symmetric] avg_interval_def intervals_def
        exact_ops_def)
  show ?thesis unfolding a b c by simp
qed

subsection \<open>The encoder and the sequence counter\<close>

lemma build_packet_state:
  assumes "build_packet s now mt payload flags = Inr (pkt, s')"
  shows "s' = s\<lparr>seq := (seq s + 1) mod 65536\<rparr>"
    and "\<exists>raw_byte. pack_header raw_byte (device_id s) ((seq s + 1) mod 65536) (py_int now) flags
            = Inr (take 10 pkt) \<and> pkt = take 10 pkt @ payload"
  using assms
  by (auto simp: build_packet_def Let_def and_65535 pack_header_def be2_def be4_def
      split: sum.splits if_splits)

lemma build_packet_sensor_1001:
  "build_packet sensor_1001 1700000000 1 [] 0 =
     Inr ([17, 3, 233, 0, 1, 101, 83, 241, 0, 0], sensor_1001\<lparr>seq := 1\<rparr>)"
  by (simp add: build_packet_def sensor_1001_def sensor_init_def pack_header_def py_int_def
      be2_def be4_def)

text \<open>
  Claim C9, as the code has it. \<open>build_packet\<close> takes no sequence number: every call
  advances the sensor's own counter by one modulo 65536 and stamps the new value into the
  header, leaving the rest of the sensor as it was; a second call with the same arguments
  leaves the counter two steps on.
\<close>

theorem build_packet_advances_seq:
  assumes "build_packet s now mt payload flags = Inr (pkt, s')"
  shows "s' = s\<lparr>seq := (seq s + 1) mod 65536\<rparr>
       \<and> (\<exists>ver ty. decode_header pkt =
             Inr (ver, ty, device_id s, (seq s + 1) mod 65536, py_int now, flags, payload))
       \<and> (\<forall>now2 pkt2 s''. build_packet s' now2 mt payload flags = Inr (pkt2, s'') \<longrightarrow>
             seq s'' = (seq s + 2) mod 65536)"
proof -
  from build_packet_state [OF assms] obtain raw_byte where
    s': "s' = s\<lparr>seq := (seq s + 1) mod 65536\<rparr>"
    and h: "pack_header raw_byte (device_id s) ((seq s + 1) mod 65536) (py_int now) flags
            = Inr (take 10 pkt)"
    and p: "pkt = take 10 pkt @ payload" by blast
  from decode_header_pack [OF h, of payload] p
  have d: "\<exists>ver ty. decode_header pkt =
             Inr (ver, ty, device_id s, (seq s + 1) mod 65536, py_int now, flags, payload)"
    by simp
  have t: "\<forall>now2 pkt2 s''. build_packet s' now2 mt payload flags = Inr (pkt2, s'') \<longrightarrow>
             seq s'' = (seq s + 2) mod 65536"
  proof (intro allI impI)
    fix now2 pkt2 s''
    assume "build_packet s' now2 mt payload flags = Inr (pkt2, s'')"
    from build_packet_state(1) [OF this] have "seq s'' = (seq s' + 1) mod 65536" by simp
    also have "\<dots> = ((seq s + 1) mod 65536 + 1) mod 65536" by (simp add: s')
    also have "\<dots> = (seq s + 2) mod 65536" by presburger
    finally show "seq s'' = (seq s + 2) mod 65536" .
  qed
  from s' d t show ?thesis by blast
qed

theorem build_packet_advances_seq_witness:
  "build_packet sensor_1001 1700000000 1 [] 0 =
     Inr ([17, 3, 233, 0, 1, 101, 83, 241, 0, 0], sensor_1001\<lparr>seq := 1\<rparr>)
   \<and> sensor_1001\<lparr>seq := 1\<rparr> = sensor_1001\<lparr>seq := (seq sensor_1001 + 1) mod 65536\<rparr>
   \<and> (\<exists>ver ty. decode_header [17, 3, 233, 0, 1, 101, 83, 241, 0, 0] =
         Inr (ver, ty, device_id sensor_1001, (seq sensor_1001 + 1) mod 65536,
              py_int 1700000000, 0, []))"
  using build_packet_advances_seq [OF build_packet_sensor_1001] build_packet_sensor_1001
  by blast

text \<open>
  Claim C9 as stated fails: encoding one packet on a fresh sensor moves its sequence
  counter from 0 to 1.
\<close>

theorem build_packet_pure_counterexample:
  "build_packet sensor_1001 1700000000 1 [] 0 =
     Inr ([17, 3, 233, 0, 1, 101, 83, 241, 0, 0], sensor_1001\<lparr>seq := 1\<rparr>)
   \<and> seq sensor_1001 = 0 \<and> seq (sensor_1001\<lparr>seq := 1\<rparr>) = 1
   \<and> sensor_1001\<lparr>seq := 1\<rparr> \<noteq> sensor_1001"
proof -
  have "seq sensor_1001 = 0" by (simp add: sensor_1001_def sensor_init_def)
  moreover have "seq (sensor_1001\<lparr>seq := 1\<rparr>) = 1" by simp
  ultimately have "sensor_1001\<lparr>seq := 1\<rparr> \<noteq> sensor_1001" by (metis zero_neq_one)
  with \<open>seq sensor_1001 = 0\<close> build_packet_sensor_1001 show ?thesis by simp
qed


subsection \<open>Packets of unknown type\<close>

lemma unpack_H_range: "0 \<le> unpack_H a b \<and> unpack_H a b < 65536"
proof -
  have "uint a < 256" "uint b < 256" using uint_bounded [of a] uint_bounded [of b] by simp_all
  moreover have "0 \<le> uint a" "0 \<le> uint b" by simp_all
  ultimately show ?thesis unfolding unpack_H_def by linarith
qed

lemma decode_header_seq_range:
  assumes "decode_header data = Inr (ver, mt, dev, sq, ts, fl, pl)"
  shows "0 \<le> sq \<and> sq < 65536"
  using assms unpack_H_range
  by (auto simp: decode_header_def unpack_header_def Let_def split: if_splits)

lemma dss_of_metrics [simp]: "dss_of (st\<lparr>metrics := m\<rparr>) = dss_of st"
  by (rule ext) (simp add: dss_of_def split: option.split)

lemma seq_ok_metrics [simp]: "seq_ok (st\<lparr>metrics := m\<rparr>) = seq_ok st"
  by (rule ext) (simp add: seq_ok_def split: option.split)

lemma detect_seq_state_frame:
  assumes "detect_seq_state st dev sq = Inr (st', r)"
  shows "reorder_buffer st' = reorder_buffer st \<and> last_values st' = last_values st
       \<and> log_file st' = log_file st \<and> device_heartbeats st' = device_heartbeats st
       \<and> device_status st' = device_status st \<and> status_csv st' = status_csv st
       \<and> total_readings (metrics st') = total_readings (metrics st)
       \<and> total_packets (metrics st') = total_packets (metrics st)"
  using assms
  by (auto simp: detect_seq_state_def split: option.splits if_splits)

lemma decode_unknown_type_datagram:
  "decode_header unknown_type_datagram = Inr (1, 3, 1001, 15, 1700000000, 0, [0, 0, 5, 220])"
  by (simp add: decode_header_def unknown_type_datagram_def HEADER_SIZE_def unpack_header_def
      unpack_H_def unpack_I_def)

lemma seq_ok_st_seen10: "seq_ok st_seen10 1001"
  by (simp add: seq_ok_def st_seen10_def server_init_def)

lemma dss_of_st_seen10:
  "dss_of st_seen10 1001 = Some \<lparr> lastSeen = 10, duplicateCount = 0, gapCount = 0 \<rparr>"
  by (simp add: dss_of_def st_seen10_def server_init_def)

lemma classify_10_15:
  "classify_spec (Some \<lparr> lastSeen = 10, duplicateCount = 0, gapCount = 0 \<rparr>) 15 =
     (\<lparr> lastSeen = 15, duplicateCount = 0, gapCount = 4 \<rparr>,
      \<lparr> isDuplicate = False, isGap = True, gapSize = 4 \<rparr>)"
  by (simp add: classify_spec_def)

text \<open>
  Claim C10. A datagram whose header decodes to a message type other than 1 and 2 is
  classified before it is dropped: the device's sequence record afterwards is the one the
  classifier produces (so \<open>lastSeen\<close> and the counters may change), while no ACK is
  sent and the reorder buffer, the last values, the logs, the heartbeat state and the
  count of readings are as before.
\<close>

theorem unknown_type_classified_then_dropped:
  assumes dec: "decode_header data = Inr (ver, mt, dev, sq, ts, fl, pl)"
    and ty: "mt \<noteq> 1" "mt \<noteq> 2"
    and ok: "seq_ok st dev"
  shows "\<exists>st'. handle_packet ops st data a now = Inr (st', [])
          \<and> dss_of st' dev = Some (fst (classify_spec (dss_of st dev) sq))
          \<and> (\<forall>d. d \<noteq> dev \<longrightarrow> dss_of st' d = dss_of st d)
          \<and> reorder_buffer st' = reorder_buffer st
          \<and> last_values st' = last_values st
          \<and> log_file st' = log_file st
          \<and> device_heartbeats st' = device_heartbeats st
          \<and> device_status st' = device_status st
          \<and> status_csv st' = status_csv st
          \<and> total_readings (metrics st') = total_readings (metrics st)
          \<and> total_packets (metrics st') = total_packets (metrics st) + 1"
proof -
  let ?st1 = "st\<lparr>metrics := (metrics st)
                       \<lparr>total_packets := total_packets (metrics st) + 1,
                        total_bytes := total_bytes (metrics st) + int (length data)\<rparr>\<rparr>"
  from decode_header_seq_range [OF dec] have r: "0 \<le> sq" "sq < 65536" by simp_all
  have ok1: "seq_ok ?st1 dev" using ok by simp
  from detect_seq_state_classify [OF ok1 r] obtain st2 df gf n where
    d: "detect_seq_state ?st1 dev sq = Inr (st2, df, gf, n)"
    and c: "dss_of st2 dev = Some (fst (classify_spec (dss_of st dev) sq))"
    and o: "\<forall>d. d \<noteq> dev \<longrightarrow> dss_of st2 d = dss_of st d"
    by auto
  note f = detect_seq_state_frame [OF d]
  show ?thesis
    using dec ty d c o f
    by (simp add: handle_packet_def Let_def)
qed

theorem unknown_type_classified_then_dropped_witness:
  "decode_header unknown_type_datagram = Inr (1, 3, 1001, 15, 1700000000, 0, [0, 0, 5, 220])
   \<and> (3::int) \<noteq> 1 \<and> (3::int) \<noteq> 2 \<and> seq_ok st_seen10 1001
   \<and> (\<exists>st'. handle_packet exact_ops st_seen10 unknown_type_datagram (''10.0.0.7'', 5000) 1700000001
               = Inr (st', [])
          \<and> dss_of st' 1001 = Some \<lparr> lastSeen = 15, duplicateCount = 0, gapCount = 4 \<rparr>
          \<and> reorder_buffer st' = Map.empty
          \<and> last_values st' = Map.empty)"
proof -
  have e: "reorder_buffer st_seen10 = Map.empty" "last_values st_seen10 = Map.empty"
    by (simp_all add: st_seen10_def server_init_def)
  from unknown_type_classified_then_dropped
         [OF decode_unknown_type_datagram _ _ seq_ok_st_seen10,
          where ops = exact_ops and a = "(''10.0.0.7'', 5000)" and now = 1700000001]
  have "\<exists>st'. handle_packet exact_ops st_seen10 unknown_type_datagram (''10.0.0.7'', 5000) 1700000001
               = Inr (st', [])
          \<and> dss_of st' 1001 = Some \<lparr> lastSeen = 15, duplicateCount = 0, gapCount = 4 \<rparr>
          \<and> reorder_buffer st' = Map.empty
          \<and> last_values st' = Map.empty"
    unfolding dss_of_st_seen10 classify_10_15 e by simp blast
  with decode_unknown_type_datagram seq_ok_st_seen10 show ?thesis by simp
qed

subsection \<open>Reliable delivery on the temperature sensor\<close>

lemma ack_loop_done:
  "ack_loop to_int pkt sq 3 a sent rs = Some (Inr (sent, 3, a, rs))"
  by (cases rs) (simp_all add: MAX_RETRIES_def)

lemma timeouts_Cons:
  "timeouts (r # rs) = (if r = Timeout then Suc (timeouts rs) else timeouts rs)"
  by (simp add: timeouts_def)

lemma ack_loop_unanswered:
  "list_all (unanswered to_int sq) rs \<Longrightarrow> retries + int (timeouts rs) = 2 \<Longrightarrow>
     ack_loop to_int pkt sq retries False sent (rs @ Timeout # rest) =
       Some (Inr (sent @ replicate (length rs + 1) pkt, 3, False, rest))"
proof (induction rs arbitrary: retries sent)
  case Nil
  then have "retries = 2" by (simp add: timeouts_def)
  then show ?case by (simp add: MAX_RETRIES_def ack_loop_done)
next
  case (Cons r rs)
  from Cons.prems(2) have lt: "retries < MAX_RETRIES" by (simp add: MAX_RETRIES_def)
  show ?case
  proof (cases r)
    case Timeout
    with Cons.prems have "list_all (unanswered to_int sq) rs"
      "(retries + 1) + int (timeouts rs) = 2" by (simp_all add: timeouts_Cons)
    from Cons.IH [OF this, of "sent @ [pkt]"] Timeout lt show ?thesis
      by (simp add: replicate_app_Cons_same)
  next
    case (Data d)
    with Cons.prems have p: "list_all (unanswered to_int sq) rs"
      "retries + int (timeouts rs) = 2" by (simp_all add: timeouts_Cons)
    from Cons.prems(1) Data have u: "unanswered to_int sq (Data d)" by simp
    from Cons.IH [OF p, of "sent @ [pkt]"] Data lt u show ?thesis
      by (auto simp: unanswered_def replicate_app_Cons_same split: if_splits option.splits)
  qed
qed

lemma ack_loop_waiting:
  "list_all (unanswered to_int sq) rs \<Longrightarrow> retries + int (timeouts rs) < 3 \<Longrightarrow>
     ack_loop to_int pkt sq retries False sent rs = None"
proof (induction rs arbitrary: retries sent)
  case Nil
  then show ?case by (simp add: MAX_RETRIES_def timeouts_def)
next
  case (Cons r rs)
  from Cons.prems(2) have lt: "retries < MAX_RETRIES" by (simp add: MAX_RETRIES_def)
  show ?case
  proof (cases r)
    case Timeout
    with Cons.prems have "list_all (unanswered to_int sq) rs"
      "(retries + 1) + int (timeouts rs) < 3" by (simp_all add: timeouts_Cons)
    from Cons.IH [OF this, of "sent @ [pkt]"] Timeout lt show ?thesis by simp
  next
    case (Data d)
    with Cons.prems have p: "list_all (unanswered to_int sq) rs"
      "retries + int (timeouts rs) < 3" by (simp_all add: timeouts_Cons)
    from Cons.prems(1) Data have u: "unanswered to_int sq (Data d)" by simp
    from Cons.IH [OF p, of "sent @ [pkt]"] Data lt u show ?thesis
      by (auto simp: unanswered_def split: if_splits option.splits)
  qed
qed

lemma ack_loop_sent:
  "ack_loop to_int pkt sq retries a sent rs = Some (Inr (sent', k, a', rs')) \<Longrightarrow>
     \<exists>n. sent' = sent @ replicate n pkt"
proof (induction rs arbitrary: retries a sent)
  case Nil
  then show ?case by (auto split: if_splits)
next
  case (Cons r rs)
  have ext: "\<And>n. (sent @ [pkt]) @ replicate n pkt = sent @ replicate (Suc n) pkt"
    by (simp add: replicate_app_Cons_same)
  show ?case
  proof (cases "retries < MAX_RETRIES \<and> \<not> a")
    case False
    with Cons.prems show ?thesis by auto
  next
    case True
    with Cons.prems obtain retries2 a2 where
      "ack_loop to_int pkt sq retries2 a2 (sent @ [pkt]) rs = Some (Inr (sent', k, a', rs'))"
      by (auto split: reply.splits if_splits option.splits)
    from Cons.IH [OF this] obtain n where "sent' = (sent @ [pkt]) @ replicate n pkt" by blast
    then show ?thesis unfolding ext by blast
  qed
qed


lemma pack_header_length: "pack_header raw_byte dev sq ts fl = Inr h \<Longrightarrow> length h = 10"
  by (auto simp: pack_header_def be2_def be4_def split: if_splits)

lemma build_packet_data_decode:
  assumes "build_packet s now 1 payload fl = Inr (pkt, s1)"
  shows "decode_header pkt =
           Inr (1, 1, device_id s, (seq s + 1) mod 65536, py_int now, fl, payload)"
    and "s1 = s\<lparr>seq := (seq s + 1) mod 65536\<rparr>"
    and "length pkt = 10 + length payload"
proof -
  from assms obtain h where
    h: "pack_header 17 (device_id s) ((seq s + 1) mod 65536) (py_int now) fl = Inr h"
    and p: "pkt = h @ payload" and s1: "s1 = s\<lparr>seq := (seq s + 1) mod 65536\<rparr>"
    by (auto simp: build_packet_def and_65535 split: sum.splits)
  from decode_header_pack [OF h, of payload] p
  show "decode_header pkt =
           Inr (1, 1, device_id s, (seq s + 1) mod 65536, py_int now, fl, payload)" by simp
  show "s1 = s\<lparr>seq := (seq s + 1) mod 65536\<rparr>" by (rule s1)
  show "length pkt = 10 + length payload" using pack_header_length [OF h] p by simp
qed

lemma pack_hot: "pack_readings [1500, 2200, 3600] = Inr [0, 0, 5, 220, 0, 0, 8, 152, 0, 0, 14, 16]"
  by (simp add: pack_I_def be4_def)

lemma build_hot:
  "build_packet sensor_hot 1700000000 1 [0, 0, 5, 220, 0, 0, 8, 152, 0, 0, 14, 16] 2 =
     Inr (hot_packet, sensor_hot\<lparr>seq := 1\<rparr>)"
  by (simp add: hot_packet_def build_packet_def sensor_hot_def sensor_1001_def sensor_init_def pack_header_def
      py_int_def be2_def be4_def)

lemma sensor_hot_simps:
  "batch_buffer sensor_hot = [1500, 2200, 3600]" "batch_size sensor_hot = 3"
  by (simp_all add: sensor_hot_def sensor_1001_def sensor_init_def MAX_READINGS_PER_BATCH_def
      MAX_PAYLOAD_BYTES_def)

lemma need_ack_iff: "need_ack batch = (\<exists>v \<in> set batch. v \<ge> 3500)"
  by (simp add: need_ack_def HIGH_TEMP_THRESHOLD_def list_ex_iff)

lemma pack_mild: "pack_readings [1500, 2200, 3400] = Inr [0, 0, 5, 220, 0, 0, 8, 152, 0, 0, 13, 72]"
  by (simp add: pack_I_def be4_def)

lemma build_mild:
  "build_packet sensor_mild 1700000000 1 [0, 0, 5, 220, 0, 0, 8, 152, 0, 0, 13, 72] 0 =
     Inr (mild_packet, sensor_mild\<lparr>seq := 1\<rparr>)"
  by (simp add: mild_packet_def build_packet_def sensor_mild_def sensor_1001_def sensor_init_def
      pack_header_def py_int_def be2_def be4_def)

lemma sensor_mild_simps:
  "batch_buffer sensor_mild = [1500, 2200, 3400]" "batch_size sensor_mild = 3"
  "device_id sensor_mild = 1001"
  by (simp_all add: sensor_mild_def sensor_1001_def sensor_init_def MAX_READINGS_PER_BATCH_def
      MAX_PAYLOAD_BYTES_def)

lemma ack_loop_acked:
  "ack_loop to_int pkt sq retries True sent rs = Some (Inr (sent, retries, True, rs))"
  by (cases rs) simp_all

lemma ack_loop_sent_nonempty:
  assumes "ack_loop to_int pkt sq 0 False [] rs = Some (Inr (sent, k, a, rs'))"
  shows "\<exists>n. sent = replicate (Suc n) pkt"
proof (cases rs)
  case Nil
  with assms show ?thesis by (simp add: MAX_RETRIES_def)
next
  case (Cons r rs2)
  with assms obtain retries2 a2 where
    "ack_loop to_int pkt sq retries2 a2 ([] @ [pkt]) rs2 = Some (Inr (sent, k, a, rs'))"
    by (auto simp: MAX_RETRIES_def split: reply.splits if_splits option.splits)
  from ack_loop_sent [OF this] obtain n where "sent = ([] @ [pkt]) @ replicate n pkt" by blast
  then show ?thesis by simp
qed

text \<open>What a call on a full batch has done when it returns.\<close>

lemma temp_send_result:
  assumes full: "\<not> int (length (batch_buffer s)) < batch_size s"
    and run: "temp_send_batch_packet to_int s now now' rs = Some (Inr (r, s', sent, rs'))"
  shows "\<exists>payload pkt n.
           pack_readings (batch_buffer s) = Inr payload
         \<and> build_packet s now 1 payload (if need_ack (batch_buffer s) then 2 else 0)
             = Inr (pkt, s\<lparr>seq := (seq s + 1) mod 65536\<rparr>)
         \<and> r \<and> sent = replicate (Suc n) pkt
         \<and> s' = s\<lparr>seq := (seq s + 1) mod 65536, last_data_time := now', batch_buffer := []\<rparr>
         \<and> (\<not> need_ack (batch_buffer s) \<longrightarrow> n = 0 \<and> rs' = rs)"
proof -
  from run full obtain payload where enc: "pack_readings (batch_buffer s) = Inr payload"
    by (auto simp: temp_send_batch_packet_def split: sum.splits)
  with run full obtain pkt s1 where
    bld: "build_packet s now 1 payload (if need_ack (batch_buffer s) then 2 else 0)
            = Inr (pkt, s1)"
    by (auto simp: temp_send_batch_packet_def Let_def split: sum.splits)
  have s1: "s1 = s\<lparr>seq := (seq s + 1) mod 65536\<rparr>"
    by (rule build_packet_data_decode(2) [OF bld])
  have b: "batch_buffer s1 = batch_buffer s" by (simp add: s1)
  show ?thesis
  proof (cases "need_ack (batch_buffer s)")
    case True
    from True run full enc bld b obtain k a where
      l: "ack_loop to_int pkt (seq s1) 0 False [] rs = Some (Inr (sent, k, a, rs'))" and r: r
      and s': "s' = s1\<lparr>last_data_time := now', batch_buffer := []\<rparr>"
      by (auto simp: temp_send_batch_packet_def split: option.splits sum.splits)
    from ack_loop_sent_nonempty [OF l] obtain n where "sent = replicate (Suc n) pkt" by blast
    with True enc bld r s' s1 show ?thesis by auto
  next
    case False
    from False run full enc bld b have "sent = [pkt]" and r and "rs' = rs"
      and "s' = s1\<lparr>last_data_time := now', batch_buffer := []\<rparr>"
      by (auto simp: temp_send_batch_packet_def)
    with False enc bld s1 show ?thesis by (auto intro!: exI [where x = 0])
  qed
qed

lemma encode_batch:
  assumes rd: "list_all (\<lambda>v. 0 \<le> v \<and> v < 4294967296) (batch_buffer s)"
    and dev: "0 \<le> device_id s" "device_id s < 65536"
    and ts: "0 \<le> now" "now < 4294967296"
    and fl: "0 \<le> fl" "fl < 256"
  shows "\<exists>payload pkt.
           pack_readings (batch_buffer s) = Inr payload
         \<and> parse_values payload = batch_buffer s
         \<and> build_packet s now 1 payload fl = Inr (pkt, s\<lparr>seq := (seq s + 1) mod 65536\<rparr>)
         \<and> decode_header pkt =
             Inr (1, 1, device_id s, (seq s + 1) mod 65536, py_int now, fl, payload)"
proof -
  from pack_readings_ok [OF rd] obtain payload where
    enc: "pack_readings (batch_buffer s) = Inr payload"
    and par: "parse_values payload = batch_buffer s" by blast
  from build_packet_data [OF fl dev ts, of payload] obtain pkt where
    bld: "build_packet s now 1 payload fl = Inr (pkt, s\<lparr>seq := (seq s + 1) mod 65536\<rparr>)"
    by blast
  from build_packet_data_decode(1) [OF bld] enc par bld show ?thesis by blast
qed

lemma unanswered_replies:
  "unanswered int_of_digits 1 ack_7" "\<not> unanswered int_of_digits 1 bare_ack"
  "unanswered int_of_digits 1 Timeout"
  by (simp_all add: unanswered_def ack_7_def bare_ack_def ACK_prefix_def int_of_digits_def
      is_digit_def)

lemma enc_hot:
  "pack_readings (batch_buffer sensor_hot) = Inr [0, 0, 5, 220, 0, 0, 8, 152, 0, 0, 14, 16]"
  unfolding sensor_hot_simps by (rule pack_hot)

lemma full_hot: "\<not> int (length (batch_buffer sensor_hot)) < batch_size sensor_hot"
  by (simp add: sensor_hot_simps)

lemma need_hot: "need_ack (batch_buffer sensor_hot)"
  by (simp add: sensor_hot_simps need_ack_def HIGH_TEMP_THRESHOLD_def)

lemma range_hot:
  "list_all (\<lambda>v. 0 \<le> v \<and> v < 4294967296) (batch_buffer sensor_hot)"
  "0 \<le> device_id sensor_hot" "device_id sensor_hot < 65536" "seq sensor_hot = 0"
  by (simp_all add: sensor_hot_def sensor_1001_def sensor_init_def)

text \<open>The retry loop on the packet of the hot batch, whose sequence number is 1.\<close>

lemma temp_send_hot:
  "temp_send_batch_packet to_int sensor_hot 1700000000 now' rs =
     (case ack_loop to_int hot_packet 1 0 False [] rs of
        None \<Rightarrow> None
      | Some (Inl e) \<Rightarrow> Some (Inl e)
      | Some (Inr (sent, retries, ack_received, rs')) \<Rightarrow>
          Some (Inr (True, sensor_hot\<lparr>seq := 1, last_data_time := now', batch_buffer := []\<rparr>,
                     sent, rs')))"
  unfolding temp_send_batch_packet_def enc_hot
  using full_hot need_hot build_hot by simp

text \<open>
  Claim C6, as the code has it. For a full batch that needs an ACK and can be encoded, let
  the outcomes of the receive calls be any that leave it unacknowledged without raising
  (timeouts, datagrams that are no ACK frame, ACK frames for another sequence number), two
  of them timeouts, followed by a third timeout. Then the call returns: it reports
  success, clears the batch, and has sent one packet, built once with the ack-requested
  flag and the sequence counter advanced once, as many times as there were receive calls,
  byte for byte the same; the retry counter stands at \<open>MAX_RETRIES\<close>. It does not stop
  earlier: on the outcomes before the third timeout alone the loop is still waiting. So
  it is the timeouts that are counted, three of them, not the attempts.
\<close>

theorem retry_bound_soft_exhaustion:
  assumes full: "\<not> int (length (batch_buffer s)) < batch_size s"
    and need: "need_ack (batch_buffer s)"
    and rd: "list_all (\<lambda>v. 0 \<le> v \<and> v < 4294967296) (batch_buffer s)"
    and dev: "0 \<le> device_id s" "device_id s < 65536"
    and ts: "0 \<le> now" "now < 4294967296"
    and un: "list_all (unanswered to_int ((seq s + 1) mod 65536)) rs"
    and two: "timeouts rs = 2"
  shows "\<exists>pkt payload.
           temp_send_batch_packet to_int s now now' (rs @ Timeout # rest) =
             Some (Inr (True,
                        s\<lparr>seq := (seq s + 1) mod 65536, last_data_time := now',
                          batch_buffer := []\<rparr>,
                        replicate (length rs + 1) pkt, rest))
         \<and> decode_header pkt =
             Inr (1, 1, device_id s, (seq s + 1) mod 65536, py_int now, 2, payload)
         \<and> parse_values payload = batch_buffer s
         \<and> ack_loop to_int pkt ((seq s + 1) mod 65536) 0 False [] (rs @ Timeout # rest) =
             Some (Inr (replicate (length rs + 1) pkt, MAX_RETRIES, False, rest))
         \<and> temp_send_batch_packet to_int s now now' rs = None"
proof -
  let ?s1 = "s\<lparr>seq := (seq s + 1) mod 65536\<rparr>"
  from encode_batch [OF rd dev ts, of 2] obtain payload pkt where
    enc: "pack_readings (batch_buffer s) = Inr payload"
    and par: "parse_values payload = batch_buffer s"
    and bld: "build_packet s now 1 payload 2 = Inr (pkt, ?s1)"
    and dec: "decode_header pkt =
             Inr (1, 1, device_id s, (seq s + 1) mod 65536, py_int now, 2, payload)"
    by auto
  have "ack_loop to_int pkt ((seq s + 1) mod 65536) 0 False [] (rs @ Timeout # rest) =
          Some (Inr ([] @ replicate (length rs + 1) pkt, 3, False, rest))"
    using un two by (intro ack_loop_unanswered) simp_all
  then have l: "ack_loop to_int pkt ((seq s + 1) mod 65536) 0 False [] (rs @ Timeout # rest) =
          Some (Inr (replicate (length rs + 1) pkt, MAX_RETRIES, False, rest))"
    by (simp add: MAX_RETRIES_def)
  have w: "ack_loop to_int pkt ((seq s + 1) mod 65536) 0 False [] rs = None"
    using un two by (intro ack_loop_waiting) simp_all
  have 1: "temp_send_batch_packet to_int s now now' (rs @ Timeout # rest) =
             Some (Inr (True,
                        s\<lparr>seq := (seq s + 1) mod 65536, last_data_time := now',
                          batch_buffer := []\<rparr>,
                        replicate (length rs + 1) pkt, rest))"
    using full need enc bld l by (simp add: temp_send_batch_packet_def)
  have 2: "temp_send_batch_packet to_int s now now' rs = None"
    using full need enc bld w by (simp add: temp_send_batch_packet_def)
  from 1 dec par l 2 show ?thesis by blast
qed

theorem retry_bound_soft_exhaustion_witness:
  "\<not> int (length (batch_buffer sensor_hot)) < batch_size sensor_hot
   \<and> need_ack (batch_buffer sensor_hot)
   \<and> list_all (unanswered int_of_digits ((seq sensor_hot + 1) mod 65536))
        [Timeout, ack_7, Timeout]
   \<and> timeouts [Timeout, ack_7, Timeout] = 2
   \<and> temp_send_batch_packet int_of_digits sensor_hot 1700000000 1700000006
        [Timeout, ack_7, Timeout, Timeout] =
      Some (Inr (True, sensor_hot\<lparr>seq := 1, last_data_time := 1700000006, batch_buffer := []\<rparr>,
        [hot_packet, hot_packet, hot_packet, hot_packet], []))
   \<and> (\<exists>payload. decode_header hot_packet = Inr (1, 1, 1001, 1, 1700000000, 2, payload)
         \<and> parse_values payload = [1500, 2200, 3600])
   \<and> temp_send_batch_packet int_of_digits sensor_hot 1700000000 1700000006
        [Timeout, ack_7, Timeout] = None"
proof -
  have un: "list_all (unanswered int_of_digits ((seq sensor_hot + 1) mod 65536))
              [Timeout, ack_7, Timeout]"
    by (simp add: range_hot unanswered_replies)
  have two: "timeouts [Timeout, ack_7, Timeout] = 2" by (simp add: timeouts_def ack_7_def)
  have i: "(seq sensor_hot + 1) mod 65536 = 1" "device_id sensor_hot = 1001"
    "py_int 1700000000 = 1700000000" "batch_buffer sensor_hot = [1500, 2200, 3600]"
    by (simp_all add: range_hot py_int_def sensor_hot_def sensor_1001_def sensor_init_def)
  have l: "[Timeout, ack_7, Timeout] @ Timeout # [] = [Timeout, ack_7, Timeout, Timeout]"
    by simp
  from retry_bound_soft_exhaustion
         [OF full_hot need_hot range_hot(1-3) _ _ un two, of 1700000000 1700000006 "[]"]
  obtain pkt payload where
    r: "temp_send_batch_packet int_of_digits sensor_hot 1700000000 1700000006
          [Timeout, ack_7, Timeout, Timeout] =
        Some (Inr (True,
                   sensor_hot\<lparr>seq := 1, last_data_time := 1700000006, batch_buffer := []\<rparr>,
                   replicate (length [Timeout, ack_7, Timeout] + 1) pkt, []))"
    and dec: "decode_header pkt = Inr (1, 1, 1001, 1, 1700000000, 2, payload)"
    and par: "parse_values payload = [1500, 2200, 3600]"
    and w: "temp_send_batch_packet int_of_digits sensor_hot 1700000000 1700000006
          [Timeout, ack_7, Timeout] = None"
    unfolding i l by auto
  have e: "ack_loop int_of_digits hot_packet 1 0 False [] [Timeout, ack_7, Timeout, Timeout] =
             Some (Inr ([hot_packet, hot_packet, hot_packet, hot_packet], 3, False, []))"
    by (simp add: MAX_RETRIES_def ack_7_def ACK_prefix_def int_of_digits_def is_digit_def)
  have d: "temp_send_batch_packet int_of_digits sensor_hot 1700000000 1700000006
        [Timeout, ack_7, Timeout, Timeout] =
      Some (Inr (True, sensor_hot\<lparr>seq := 1, last_data_time := 1700000006, batch_buffer := []\<rparr>,
        [hot_packet, hot_packet, hot_packet, hot_packet], []))"
    unfolding temp_send_hot e by simp
  from r d have "pkt = hot_packet" by simp
  with dec par have "\<exists>payload. decode_header hot_packet = Inr (1, 1, 1001, 1, 1700000000, 2, payload)
         \<and> parse_values payload = [1500, 2200, 3600]" by blast
  with full_hot need_hot un two d w show ?thesis by blast
qed

text \<open>
  Claim C6 as stated fails. Three attempts that are each answered by an ACK frame for
  another sequence number are three attempts without acknowledgement, and the loop has
  not stopped after them: it waits for a fourth outcome, and when three timeouts follow
  it has sent the packet six times. And an attempt answered by a bare \<open>ACK\<close> ends the
  call with \<open>ValueError\<close>.
\<close>

theorem retry_bound_counterexample:
  "list_all (unanswered int_of_digits 1) [ack_7, ack_7, ack_7]
   \<and> temp_send_batch_packet int_of_digits sensor_hot 1700000000 1700000006
        [ack_7, ack_7, ack_7] = None
   \<and> temp_send_batch_packet int_of_digits sensor_hot 1700000000 1700000006
        [ack_7, ack_7, ack_7, Timeout, Timeout, Timeout] =
      Some (Inr (True, sensor_hot\<lparr>seq := 1, last_data_time := 1700000006, batch_buffer := []\<rparr>,
        [hot_packet, hot_packet, hot_packet, hot_packet, hot_packet, hot_packet], []))
   \<and> temp_send_batch_packet int_of_digits sensor_hot 1700000000 1700000006 [bare_ack] =
      Some (Inl ValueError)"
proof -
  have a: "ack_loop int_of_digits hot_packet 1 0 False [] [ack_7, ack_7, ack_7] = None"
    by (simp add: MAX_RETRIES_def ack_7_def ACK_prefix_def int_of_digits_def is_digit_def)
  have b: "ack_loop int_of_digits hot_packet 1 0 False []
             [ack_7, ack_7, ack_7, Timeout, Timeout, Timeout] =
           Some (Inr ([hot_packet, hot_packet, hot_packet, hot_packet, hot_packet, hot_packet],
                      3, False, []))"
    by (simp add: MAX_RETRIES_def ack_7_def ACK_prefix_def int_of_digits_def is_digit_def)
  have c: "ack_loop int_of_digits hot_packet 1 0 False [] [bare_ack] = Some (Inl ValueError)"
    by (simp add: MAX_RETRIES_def bare_ack_def ACK_prefix_def int_of_digits_def)
  show ?thesis
    unfolding temp_send_hot a b c by (simp add: unanswered_replies)
qed

text \<open>
  Claim C7. For a full batch, \<open>need_ack\<close> holds exactly when some reading is at least
  3500. Whenever the call returns it reports success and has sent at least one datagram,
  and every datagram it has sent decodes on the server to a DATA packet with the batch as
  readings and with flags 2 if some reading is at least 3500 and 0 otherwise, so bit 1 is
  set exactly when an ACK is needed; with all readings below 3500 exactly one datagram
  has been sent and no receive call made (the transport outcomes are left as they were).
  A batch that can be encoded does get sent: with all readings below 3500 the call
  returns whatever the transport would do, and with a reading of at least 3500 it returns
  after one send when the first reply is the matching ACK.
\<close>

theorem ack_decision:
  assumes full: "\<not> int (length (batch_buffer s)) < batch_size s"
  shows "need_ack (batch_buffer s) = (\<exists>v \<in> set (batch_buffer s). v \<ge> 3500)
       \<and> (\<forall>r s' sent rs'.
             temp_send_batch_packet to_int s now now' rs = Some (Inr (r, s', sent, rs')) \<longrightarrow>
               r \<and> sent \<noteq> []
             \<and> (\<forall>p \<in> set sent. \<exists>fl pl.
                    decode_header p =
                      Inr (1, 1, device_id s, (seq s + 1) mod 65536, py_int now, fl, pl)
                  \<and> parse_values pl = batch_buffer s
                  \<and> fl = (if \<exists>v \<in> set (batch_buffer s). v \<ge> 3500 then 2 else 0)
                  \<and> ((fl AND 2 \<noteq> 0) = (\<exists>v \<in> set (batch_buffer s). v \<ge> 3500)))
             \<and> ((\<forall>v \<in> set (batch_buffer s). v < 3500) \<longrightarrow> length sent = 1 \<and> rs' = rs))
       \<and> (list_all (\<lambda>v. 0 \<le> v \<and> v < 4294967296) (batch_buffer s)
            \<and> 0 \<le> device_id s \<and> device_id s < 65536 \<and> 0 \<le> now \<and> now < 4294967296 \<longrightarrow>
              ((\<forall>v \<in> set (batch_buffer s). v < 3500) \<longrightarrow>
                 (\<exists>pkt s'. temp_send_batch_packet to_int s now now' rs =
                              Some (Inr (True, s', [pkt], rs))))
            \<and> ((\<exists>v \<in> set (batch_buffer s). v \<ge> 3500) \<longrightarrow>
                 (\<forall>d. take 3 d = ACK_prefix
                       \<and> to_int (drop 4 d) = Some ((seq s + 1) mod 65536) \<longrightarrow>
                   (\<exists>pkt s'. temp_send_batch_packet to_int s now now' (Data d # rs) =
                                Some (Inr (True, s', [pkt], rs))))))"
proof (intro conjI allI impI)
  show "need_ack (batch_buffer s) = (\<exists>v \<in> set (batch_buffer s). v \<ge> 3500)"
    by (rule need_ack_iff)
next
  fix r s' sent rs'
  assume run: "temp_send_batch_packet to_int s now now' rs = Some (Inr (r, s', sent, rs'))"
  from temp_send_result [OF full run] obtain payload pkt n where
    enc: "pack_readings (batch_buffer s) = Inr payload"
    and bld: "build_packet s now 1 payload (if need_ack (batch_buffer s) then 2 else 0)
                = Inr (pkt, s\<lparr>seq := (seq s + 1) mod 65536\<rparr>)"
    and r: r and sent: "sent = replicate (Suc n) pkt"
    and once: "\<not> need_ack (batch_buffer s) \<longrightarrow> n = 0 \<and> rs' = rs" by blast
  show r by (rule r)
  show "sent \<noteq> []" by (simp add: sent)
  show "\<forall>p \<in> set sent. \<exists>fl pl.
          decode_header p = Inr (1, 1, device_id s, (seq s + 1) mod 65536, py_int now, fl, pl)
        \<and> parse_values pl = batch_buffer s
        \<and> fl = (if \<exists>v \<in> set (batch_buffer s). v \<ge> 3500 then 2 else 0)
        \<and> ((fl AND 2 \<noteq> 0) = (\<exists>v \<in> set (batch_buffer s). v \<ge> 3500))"
  proof
    fix p assume "p \<in> set sent"
    then have p: "p = pkt" by (auto simp: sent)
    from build_packet_data_decode(1) [OF bld] pack_readings_Inr [OF enc]
    show "\<exists>fl pl.
          decode_header p = Inr (1, 1, device_id s, (seq s + 1) mod 65536, py_int now, fl, pl)
        \<and> parse_values pl = batch_buffer s
        \<and> fl = (if \<exists>v \<in> set (batch_buffer s). v \<ge> 3500 then 2 else 0)
        \<and> ((fl AND 2 \<noteq> 0) = (\<exists>v \<in> set (batch_buffer s). v \<ge> 3500))"
      unfolding p need_ack_iff by auto
  qed
  assume "\<forall>v \<in> set (batch_buffer s). v < 3500"
  then have "\<not> need_ack (batch_buffer s)" unfolding need_ack_iff by auto
  with once sent show "length sent = 1" "rs' = rs" by simp_all
next
  assume rg: "list_all (\<lambda>v. 0 \<le> v \<and> v < 4294967296) (batch_buffer s)
            \<and> 0 \<le> device_id s \<and> device_id s < 65536 \<and> 0 \<le> now \<and> now < 4294967296"
    and cold: "\<forall>v \<in> set (batch_buffer s). v < 3500"
  from cold have nn: "\<not> need_ack (batch_buffer s)" unfolding need_ack_iff by auto
  from rg encode_batch [of s now 0] obtain payload pkt where
    "pack_readings (batch_buffer s) = Inr payload"
    "build_packet s now 1 payload 0 = Inr (pkt, s\<lparr>seq := (seq s + 1) mod 65536\<rparr>)"
    by auto
  with full nn show "\<exists>pkt s'. temp_send_batch_packet to_int s now now' rs =
                              Some (Inr (True, s', [pkt], rs))"
    by (simp add: temp_send_batch_packet_def)
next
  fix d
  assume rg: "list_all (\<lambda>v. 0 \<le> v \<and> v < 4294967296) (batch_buffer s)
            \<and> 0 \<le> device_id s \<and> device_id s < 65536 \<and> 0 \<le> now \<and> now < 4294967296"
    and hot: "\<exists>v \<in> set (batch_buffer s). v \<ge> 3500"
    and ack: "take 3 d = ACK_prefix \<and> to_int (drop 4 d) = Some ((seq s + 1) mod 65536)"
  from hot have nd: "need_ack (batch_buffer s)" unfolding need_ack_iff by auto
  from rg encode_batch [of s now 2] obtain payload pkt where
    "pack_readings (batch_buffer s) = Inr payload"
    "build_packet s now 1 payload 2 = Inr (pkt, s\<lparr>seq := (seq s + 1) mod 65536\<rparr>)"
    by auto
  with full nd ack show "\<exists>pkt s'. temp_send_batch_packet to_int s now now' (Data d # rs) =
                                Some (Inr (True, s', [pkt], rs))"
    by (simp add: temp_send_batch_packet_def MAX_RETRIES_def ack_loop_acked)
qed

lemma full_mild: "\<not> int (length (batch_buffer sensor_mild)) < batch_size sensor_mild"
  by (simp add: sensor_mild_simps)

lemma cold_mild: "\<forall>v \<in> set (batch_buffer sensor_mild). v < 3500"
  by (simp add: sensor_mild_simps)

lemma temp_send_mild:
  "temp_send_batch_packet to_int sensor_mild 1700000000 now' rs =
     Some (Inr (True, sensor_mild\<lparr>seq := 1, last_data_time := now', batch_buffer := []\<rparr>,
                [mild_packet], rs))"
proof -
  have enc: "pack_readings (batch_buffer sensor_mild) =
               Inr [0, 0, 5, 220, 0, 0, 8, 152, 0, 0, 13, 72]"
    unfolding sensor_mild_simps by (rule pack_mild)
  have nn: "\<not> need_ack (batch_buffer sensor_mild)"
    by (simp add: sensor_mild_simps need_ack_def HIGH_TEMP_THRESHOLD_def)
  show ?thesis
    unfolding temp_send_batch_packet_def enc using full_mild nn build_mild by simp
qed

theorem ack_decision_witness:
  "\<not> int (length (batch_buffer sensor_hot)) < batch_size sensor_hot
   \<and> batch_buffer sensor_hot = [1500, 2200, 3600]
   \<and> temp_send_batch_packet int_of_digits sensor_hot 1700000000 1700000001 [ack_1, Timeout] =
        Some (Inr (True, sensor_hot\<lparr>seq := 1, last_data_time := 1700000001, batch_buffer := []\<rparr>,
                   [hot_packet], [Timeout]))
   \<and> (\<exists>pl. decode_header hot_packet = Inr (1, 1, 1001, 1, 1700000000, 2, pl)
           \<and> parse_values pl = [1500, 2200, 3600])
   \<and> \<not> int (length (batch_buffer sensor_mild)) < batch_size sensor_mild
   \<and> batch_buffer sensor_mild = [1500, 2200, 3400]
   \<and> temp_send_batch_packet int_of_digits sensor_mild 1700000000 1700000001 [Timeout] =
        Some (Inr (True, sensor_mild\<lparr>seq := 1, last_data_time := 1700000001, batch_buffer := []\<rparr>,
                   [mild_packet], [Timeout]))
   \<and> (\<exists>pl. decode_header mild_packet = Inr (1, 1, 1001, 1, 1700000000, 0, pl)
           \<and> parse_values pl = [1500, 2200, 3400])"
proof -
  have hot: "\<exists>v \<in> set (batch_buffer sensor_hot). v \<ge> 3500"
    by (simp add: sensor_hot_simps)
  have e: "ack_loop int_of_digits hot_packet 1 0 False [] [ack_1, Timeout] =
             Some (Inr ([hot_packet], 0, True, [Timeout]))"
    by (simp add: MAX_RETRIES_def ack_1_def ACK_prefix_def int_of_digits_def is_digit_def)
  have h: "temp_send_batch_packet int_of_digits sensor_hot 1700000000 1700000001
             [ack_1, Timeout] =
        Some (Inr (True, sensor_hot\<lparr>seq := 1, last_data_time := 1700000001, batch_buffer := []\<rparr>,
                   [hot_packet], [Timeout]))"
    unfolding temp_send_hot e by simp
  note m = temp_send_mild [of int_of_digits 1700000001 "[Timeout]"]
  have t: "py_int 1700000000 = 1700000000" by (simp add: py_int_def)
  from ack_decision [OF full_hot, THEN conjunct2, THEN conjunct1, rule_format, OF h] hot
  have dh: "\<exists>pl. decode_header hot_packet = Inr (1, 1, 1001, 1, 1700000000, 2, pl)
           \<and> parse_values pl = [1500, 2200, 3600]"
    by (simp add: range_hot sensor_hot_simps sensor_hot_def sensor_1001_def sensor_init_def t)
  from ack_decision [OF full_mild, THEN conjunct2, THEN conjunct1, rule_format, OF m] cold_mild
  have dm: "\<exists>pl. decode_header mild_packet = Inr (1, 1, 1001, 1, 1700000000, 0, pl)
           \<and> parse_values pl = [1500, 2200, 3400]"
    by (simp add: sensor_mild_simps sensor_mild_def sensor_1001_def sensor_init_def t)
  from full_hot sensor_hot_simps(1) h dh full_mild sensor_mild_simps(1) m dm
  show ?thesis by blast
qed

subsection \<open>Packet size\<close>

lemma build_packet_drop:
  assumes "build_packet s now 1 payload fl = Inr (pkt, s1)"
  shows "drop 10 pkt = payload"
proof -
  from build_packet_state(2) [OF assms] obtain raw_byte where
    h: "pack_header raw_byte (device_id s) ((seq s + 1) mod 65536) (py_int now) fl
          = Inr (take 10 pkt)" and p: "pkt = take 10 pkt @ payload" by blast
  from pack_header_length [OF h] have "length (take 10 pkt) = 10" .
  with p show ?thesis by (metis append_eq_conv_conj)
qed

lemma send_batch_packet_sent:
  assumes "send_batch_packet s now now' = Inr (True, s', pkts)"
  shows "\<exists>pkt. pkts = [pkt]
          \<and> length pkt = 10 + 4 * min (length (batch_buffer s)) 47
          \<and> parse_values (drop 10 pkt) = take 47 (batch_buffer s)
          \<and> batch_buffer s' = [] \<and> batch_size s' = batch_size s"
proof -
  from assms obtain payload where enc: "pack_readings (batch_buffer s) = Inr payload"
    by (auto simp: send_batch_packet_def split: if_splits sum.splits)
  note e = pack_readings_Inr [OF enc]
  show ?thesis
  proof (cases "check_payload_size payload")
    case True
    with e have le: "length (batch_buffer s) \<le> 47"
      by (simp add: check_payload_size_def HEADER_SIZE_def)
    from assms enc True obtain pkt s2 where
      b: "build_packet s now 1 payload 1 = Inr (pkt, s2)" and p: "pkts = [pkt]"
      and s': "s' = s2\<lparr>last_data_time := now', batch_buffer := []\<rparr>"
      by (auto simp: send_batch_packet_def split: if_splits sum.splits)
    from build_packet_data_decode(2,3) [OF b] build_packet_drop [OF b] e le p s'
    show ?thesis by simp
  next
    case False
    with e have gt: "length (batch_buffer s) > 47"
      by (simp add: check_payload_size_def HEADER_SIZE_def)
    from pack_readings_take [OF enc, of 47] obtain q where
      q: "pack_readings (take 47 (batch_buffer s)) = Inr q"
      "parse_values q = take 47 (batch_buffer s)" "length q = 4 * length (take 47 (batch_buffer s))"
      by blast
    have m: "nat MAX_READINGS_PER_BATCH = 47"
      by (simp add: MAX_READINGS_PER_BATCH_def MAX_PAYLOAD_BYTES_def)
    from assms enc False q(1) obtain pkt s2 where
      b: "build_packet (s\<lparr>batch_buffer := take 47 (batch_buffer s)\<rparr>) now 1 q 1 = Inr (pkt, s2)"
      and p: "pkts = [pkt]"
      and s': "s' = s2\<lparr>last_data_time := now', batch_buffer := []\<rparr>"
      by (auto simp: send_batch_packet_def m split: if_splits sum.splits)
    from build_packet_data_decode(2,3) [OF b] build_packet_drop [OF b] q gt p s'
    show ?thesis by simp
  qed
qed

lemma send_batch_packet_not_sent:
  "send_batch_packet s now now' = Inr (False, s', pkts) \<Longrightarrow>
     pkts = [] \<and> s' = s \<and> int (length (batch_buffer s)) < batch_size s"
  by (auto simp: send_batch_packet_def split: if_splits sum.splits prod.splits)


lemma build_packet_length:
  assumes "build_packet s now mt payload fl = Inr (pkt, s1)"
  shows "length pkt = 10 + length payload"
proof -
  from build_packet_state(2) [OF assms] obtain raw_byte where
    h: "pack_header raw_byte (device_id s) ((seq s + 1) mod 65536) (py_int now) fl
          = Inr (take 10 pkt)" and p: "pkt = take 10 pkt @ payload" by blast
  from pack_header_length [OF h] have "length (take 10 pkt) = 10" .
  with p show ?thesis by (metis length_append)
qed

lemma send_heartbeat_sent:
  assumes "send_heartbeat s now now' = Inr (s', pkts)"
  shows "(\<forall>p \<in> set pkts. length p = 10) \<and> batch_buffer s' = batch_buffer s
       \<and> batch_size s' = batch_size s"
proof -
  from assms obtain pkt s1 where b: "build_packet s now 2 [] 0 = Inr (pkt, s1)"
    and p: "pkts = [pkt]" and s': "s' = s1\<lparr>last_heartbeat_time := now'\<rparr>"
    by (auto simp: send_heartbeat_def split: sum.splits)
  from build_packet_length [OF b] build_packet_state(1) [OF b] p s' show ?thesis by simp
qed

lemma batch_inv_cleared:
  "batch_inv s \<Longrightarrow> batch_size s' = batch_size s \<Longrightarrow> batch_buffer s' = [] \<Longrightarrow> batch_inv s'"
  by (simp add: batch_inv_def)

lemma batch_inv_same:
  "batch_inv s \<Longrightarrow> batch_size s' = batch_size s \<Longrightarrow> batch_buffer s' = batch_buffer s
     \<Longrightarrow> batch_inv s'"
  by (simp add: batch_inv_def)

lemma batch_inv_append:
  "batch_inv s \<Longrightarrow> length (batch_buffer s @ [reading]) \<le> 47"
  unfolding batch_inv_def MAX_READINGS_PER_BATCH_def MAX_PAYLOAD_BYTES_def by simp linarith

lemma run_step_inv:
  assumes inv: "batch_inv s" and run: "run_step ops s t now now' reading = Inr (s', pkts)"
  shows "batch_inv s' \<and> (\<forall>p \<in> set pkts. length p \<le> 200)"
proof (cases "should_send_heartbeat ops s t")
  case True
  with run have "send_heartbeat s now now' = Inr (s', pkts)" by (simp add: run_step_def)
  from send_heartbeat_sent [OF this] inv show ?thesis by (auto intro: batch_inv_same)
next
  case False
  let ?s1 = "s\<lparr>batch_buffer := batch_buffer s @ [reading]\<rparr>"
  from False run obtain sent where
    snd: "send_batch_packet ?s1 now now' = Inr (sent, s', pkts)"
    by (auto simp: run_step_def Let_def split: sum.splits)
  show ?thesis
  proof (cases sent)
    case True
    with send_batch_packet_sent [of ?s1 now now' s' pkts] snd obtain pkt where
      p: "pkts = [pkt]" "length pkt = 10 + 4 * min (length (batch_buffer ?s1)) 47"
      "batch_buffer s' = []" "batch_size s' = batch_size s" by auto
    from p(2) have "length pkt \<le> 200" by simp
    with p inv show ?thesis by (auto intro: batch_inv_cleared)
  next
    case False
    with send_batch_packet_not_sent [of ?s1 now now' s' pkts] snd
    have "pkts = []" "s' = ?s1" "int (length (batch_buffer ?s1)) < batch_size ?s1" by auto
    with inv show ?thesis by (simp add: batch_inv_def)
  qed
qed

lemma temp_send_all_same:
  assumes full: "\<not> int (length (batch_buffer s)) < batch_size s"
    and enc: "pack_readings (batch_buffer s) = Inr payload"
    and bld: "build_packet s now 1 payload (if need_ack (batch_buffer s) then 2 else 0)
                = Inr (pkt, s1)"
    and run: "temp_send_batch_packet to_int s now now' rs = Some (Inr (r, s', sent, rs'))"
  shows "r \<and> (\<exists>n. sent = replicate n pkt)
       \<and> s' = s1\<lparr>last_data_time := now', batch_buffer := []\<rparr>"
proof (cases "need_ack (batch_buffer s)")
  case True
  have b: "batch_buffer s1 = batch_buffer s"
    using build_packet_state(1) [OF bld] by simp
  from True run full enc bld b obtain k a where
    "ack_loop to_int pkt (seq s1) 0 False [] rs = Some (Inr (sent, k, a, rs'))" and r: r
    and s': "s' = s1\<lparr>last_data_time := now', batch_buffer := []\<rparr>"
    by (auto simp: temp_send_batch_packet_def split: option.splits sum.splits)
  from ack_loop_sent [OF this(1)] r s' show ?thesis by simp
next
  case False
  have b: "batch_buffer s1 = batch_buffer s"
    using build_packet_state(1) [OF bld] by simp
  from False run full enc bld b have "sent = [pkt]" and r
    and "s' = s1\<lparr>last_data_time := now', batch_buffer := []\<rparr>"
    by (auto simp: temp_send_batch_packet_def)
  then show ?thesis by (auto intro: exI [where x = 1])
qed

lemma temp_send_batch_packet_sent:
  assumes "temp_send_batch_packet to_int s now now' rs = Some (Inr (r, s', pkts, rs'))"
  shows "(r \<longrightarrow> batch_buffer s' = [] \<and> batch_size s' = batch_size s
              \<and> (\<forall>p \<in> set pkts. length p = 10 + 4 * length (batch_buffer s)))
       \<and> (\<not> r \<longrightarrow> s' = s \<and> pkts = [] \<and> int (length (batch_buffer s)) < batch_size s)"
proof (cases "int (length (batch_buffer s)) < batch_size s")
  case True
  with assms show ?thesis by (simp add: temp_send_batch_packet_def)
next
  case False
  with assms obtain payload where enc: "pack_readings (batch_buffer s) = Inr payload"
    by (auto simp: temp_send_batch_packet_def split: sum.splits)
  with assms False obtain pkt s1 where
    bld: "build_packet s now 1 payload (if need_ack (batch_buffer s) then 2 else 0) = Inr (pkt, s1)"
    by (auto simp: temp_send_batch_packet_def Let_def split: sum.splits)
  from temp_send_all_same [OF False enc bld assms] obtain n where
    r: r and n: "pkts = replicate n pkt"
    and s': "s' = s1\<lparr>last_data_time := now', batch_buffer := []\<rparr>" by blast
  from pack_readings_Inr [OF enc] build_packet_length [OF bld]
  have "length pkt = 10 + 4 * length (batch_buffer s)" by simp
  with r n s' build_packet_state(1) [OF bld] show ?thesis by simp
qed

lemma temp_run_step_inv:
  assumes inv: "batch_inv s"
    and run: "temp_run_step to_int ops s t now now' reading rs = Some (Inr (s', pkts, rs'))"
  shows "batch_inv s' \<and> (\<forall>p \<in> set pkts. length p \<le> 200)"
proof (cases "should_send_heartbeat ops s t")
  case True
  with run have "send_heartbeat s now now' = Inr (s', pkts)"
    by (auto simp: temp_run_step_def split: sum.splits)
  from send_heartbeat_sent [OF this] inv show ?thesis by (auto intro: batch_inv_same)
next
  case False
  let ?s1 = "s\<lparr>batch_buffer := batch_buffer s @ [reading]\<rparr>"
  from False run obtain sent where
    snd: "temp_send_batch_packet to_int ?s1 now now' rs = Some (Inr (sent, s', pkts, rs'))"
    by (auto simp: temp_run_step_def Let_def split: sum.splits option.splits)
  note ts = temp_send_batch_packet_sent [OF snd]
  show ?thesis
  proof (cases sent)
    case True
    with ts have p: "batch_buffer s' = []" "batch_size s' = batch_size s"
      "\<forall>p \<in> set pkts. length p = 10 + 4 * length (batch_buffer s @ [reading])" by simp_all
    from batch_inv_append [OF inv, of reading] p(3)
    have "\<forall>p \<in> set pkts. length p \<le> 200" by auto
    with p inv show ?thesis by (auto intro: batch_inv_cleared)
  next
    case False
    with ts have "pkts = []" "s' = ?s1" "int (length (batch_buffer ?s1)) < batch_size ?s1"
      by simp_all
    with inv show ?thesis by (simp add: batch_inv_def)
  qed
qed

lemma batch_inv_init: "batch_inv (sensor_init dev rep_iv bsize hb_iv t0)"
  by (simp add: batch_inv_def sensor_init_def)

lemma send_batch_packet_total:
  assumes full: "\<not> int (length (batch_buffer s)) < batch_size s"
    and rd: "list_all (\<lambda>v. 0 \<le> v \<and> v < 4294967296) (batch_buffer s)"
    and dev: "0 \<le> device_id s" "device_id s < 65536"
    and ts: "0 \<le> now" "now < 4294967296"
  shows "\<exists>s' pkt. send_batch_packet s now now' = Inr (True, s', [pkt])"
proof -
  from pack_readings_ok [OF rd] obtain payload where
    enc: "pack_readings (batch_buffer s) = Inr payload" by blast
  from pack_readings_take [OF enc, of 47] obtain q where
    q: "pack_readings (take 47 (batch_buffer s)) = Inr q" by blast
  have m: "nat MAX_READINGS_PER_BATCH = 47"
    by (simp add: MAX_READINGS_PER_BATCH_def MAX_PAYLOAD_BYTES_def)
  show ?thesis
    using full enc q dev ts
    by (simp add: send_batch_packet_def m build_packet_data)
qed

text \<open>
  Claim C8. Whatever batch the base-class sender is called on, every datagram it sends
  has at most 200 bytes: a sent packet has the 10-byte header and four bytes for each of
  the first 47 readings at most, and its payload parses to exactly those readings, so a
  batch of 50 goes out as its first 47 readings in 198 bytes. Along the reporting loop the
  bound holds for every sensor, the temperature sensor with its own sender included: the
  constructor caps the batch size at 47, each iteration keeps the pending batch below the
  cap, and every datagram an iteration sends has at most 200 bytes.
\<close>

theorem packet_size_invariant:
  "(\<forall>r s' pkts. send_batch_packet s now now' = Inr (r, s', pkts) \<longrightarrow>
      (\<forall>p \<in> set pkts. length p \<le> 200)
      \<and> (r \<longrightarrow> (\<exists>pkt. pkts = [pkt]
                 \<and> length pkt = 10 + 4 * min (length (batch_buffer s)) 47
                 \<and> parse_values (drop 10 pkt) = take 47 (batch_buffer s))))
   \<and> (batch_inv s \<longrightarrow>
        (\<forall>s' pkts. run_step ops s t now now' reading = Inr (s', pkts) \<longrightarrow>
           batch_inv s' \<and> (\<forall>p \<in> set pkts. length p \<le> 200))
      \<and> (\<forall>s' pkts rs'.
           temp_run_step to_int ops s t now now' reading rs = Some (Inr (s', pkts, rs')) \<longrightarrow>
           batch_inv s' \<and> (\<forall>p \<in> set pkts. length p \<le> 200)))
   \<and> batch_inv (sensor_init dev rep_iv bsize hb_iv t0)"
proof (intro conjI allI impI)
  fix r s' pkts assume a: "send_batch_packet s now now' = Inr (r, s', pkts)"
  show "\<forall>p \<in> set pkts. length p \<le> 200"
  proof (cases r)
    case True
    with send_batch_packet_sent [of s now now' s' pkts] a show ?thesis by auto
  next
    case False
    with send_batch_packet_not_sent [of s now now' s' pkts] a show ?thesis by simp
  qed
  assume r
  with send_batch_packet_sent [of s now now' s' pkts] a
  show "\<exists>pkt. pkts = [pkt]
                 \<and> length pkt = 10 + 4 * min (length (batch_buffer s)) 47
                 \<and> parse_values (drop 10 pkt) = take 47 (batch_buffer s)" by auto
next
  fix s' pkts assume "batch_inv s" "run_step ops s t now now' reading = Inr (s', pkts)"
  from run_step_inv [OF this]
  show "batch_inv s'" "\<forall>p \<in> set pkts. length p \<le> 200" by simp_all
next
  fix s' pkts rs' assume "batch_inv s"
    "temp_run_step to_int ops s t now now' reading rs = Some (Inr (s', pkts, rs'))"
  from temp_run_step_inv [OF this]
  show "batch_inv s'" "\<forall>p \<in> set pkts. length p \<le> 200" by simp_all
next
  show "batch_inv (sensor_init dev rep_iv bsize hb_iv t0)" by (rule batch_inv_init)
qed


theorem packet_size_invariant_witness:
  "(\<exists>s' pkt. send_batch_packet sensor_fifty 1700000000 1700000000 = Inr (True, s', [pkt])
        \<and> length pkt = 198 \<and> parse_values (drop 10 pkt) = replicate 47 2000)
   \<and> batch_inv sensor_two
   \<and> run_step exact_ops sensor_two 1700000001 1700000001 1700000001 3400 =
        Inr (sensor_mild\<lparr>seq := 1, last_data_time := 1700000001, batch_buffer := []\<rparr>,
             [[17, 3, 233, 0, 1, 101, 83, 241, 1, 1, 0, 0, 5, 220, 0, 0, 8, 152, 0, 0, 13, 72]])
   \<and> temp_run_step no_int exact_ops sensor_two 1700000001 1700000000 1700000001 3400 [] =
        Some (Inr (sensor_mild\<lparr>seq := 1, last_data_time := 1700000001, batch_buffer := []\<rparr>,
                   [mild_packet], []))
   \<and> batch_inv (sensor_mild\<lparr>seq := 1, last_data_time := 1700000001, batch_buffer := []\<rparr>)"
proof -
  have f: "batch_buffer sensor_fifty = replicate 50 2000" "batch_size sensor_fifty = 47"
    "device_id sensor_fifty = 1002"
    by (simp_all add: sensor_fifty_def sensor_init_def MAX_READINGS_PER_BATCH_def
        MAX_PAYLOAD_BYTES_def)
  have "\<exists>s' pkt. send_batch_packet sensor_fifty 1700000000 1700000000 = Inr (True, s', [pkt])"
    by (rule send_batch_packet_total) (simp_all add: f list_all_iff)
  then obtain s' pkt where
    a: "send_batch_packet sensor_fifty 1700000000 1700000000 = Inr (True, s', [pkt])" by blast
  from packet_size_invariant [of sensor_fifty 1700000000 1700000000,
      THEN conjunct1, rule_format, OF a]
  have "length pkt = 198 \<and> parse_values (drop 10 pkt) = replicate 47 2000"
    by (simp add: f)
  with a have 1: "\<exists>s' pkt. send_batch_packet sensor_fifty 1700000000 1700000000 = Inr (True, s', [pkt])
        \<and> length pkt = 198 \<and> parse_values (drop 10 pkt) = replicate 47 2000" by blast
  have e1: "sensor_two\<lparr>batch_buffer := batch_buffer sensor_two @ [3400]\<rparr> = sensor_mild"
    by (simp add: sensor_two_def sensor_mild_def)
  have inv: "batch_inv sensor_two"
    by (simp add: batch_inv_def sensor_two_def sensor_1001_def sensor_init_def
        MAX_READINGS_PER_BATCH_def MAX_PAYLOAD_BYTES_def)
  have hb: "\<not> should_send_heartbeat exact_ops sensor_two 1700000001"
    by (simp add: should_send_heartbeat_def sensor_two_def sensor_1001_def sensor_init_def
        exact_ops_def)
  have bm: "build_packet sensor_mild 1700000001 1 [0, 0, 5, 220, 0, 0, 8, 152, 0, 0, 13, 72] 1 =
     Inr ([17, 3, 233, 0, 1, 101, 83, 241, 1, 1, 0, 0, 5, 220, 0, 0, 8, 152, 0, 0, 13, 72],
          sensor_mild\<lparr>seq := 1\<rparr>)"
    by (simp add: build_packet_def sensor_mild_def sensor_1001_def sensor_init_def
        pack_header_def py_int_def be2_def be4_def)
  have pm: "pack_readings (batch_buffer sensor_mild) =
              Inr [0, 0, 5, 220, 0, 0, 8, 152, 0, 0, 13, 72]"
    unfolding sensor_mild_simps by (rule pack_mild)
  have nm: "\<not> need_ack (batch_buffer sensor_mild)"
    by (simp add: sensor_mild_simps need_ack_def HIGH_TEMP_THRESHOLD_def)
  have full: "\<not> int (length (batch_buffer sensor_mild)) < batch_size sensor_mild"
    by (simp add: sensor_mild_simps)
  have sm: "send_batch_packet sensor_mild 1700000001 1700000001 =
        Inr (True, sensor_mild\<lparr>seq := 1, last_data_time := 1700000001, batch_buffer := []\<rparr>,
             [[17, 3, 233, 0, 1, 101, 83, 241, 1, 1, 0, 0, 5, 220, 0, 0, 8, 152, 0, 0, 13, 72]])"
    unfolding send_batch_packet_def pm
    using full by (simp add: check_payload_size_def HEADER_SIZE_def bm)
  have tm: "temp_send_batch_packet no_int sensor_mild 1700000000 1700000001 [] =
        Some (Inr (True, sensor_mild\<lparr>seq := 1, last_data_time := 1700000001, batch_buffer := []\<rparr>,
                   [mild_packet], []))"
    unfolding temp_send_batch_packet_def pm
    using full nm by (simp add: build_mild)
  have 2: "run_step exact_ops sensor_two 1700000001 1700000001 1700000001 3400 =
        Inr (sensor_mild\<lparr>seq := 1, last_data_time := 1700000001, batch_buffer := []\<rparr>,
             [[17, 3, 233, 0, 1, 101, 83, 241, 1, 1, 0, 0, 5, 220, 0, 0, 8, 152, 0, 0, 13, 72]])"
    unfolding run_step_def Let_def e1 using hb sm by simp
  have 3: "temp_run_step no_int exact_ops sensor_two 1700000001 1700000000 1700000001 3400 [] =
        Some (Inr (sensor_mild\<lparr>seq := 1, last_data_time := 1700000001, batch_buffer := []\<rparr>,
                   [mild_packet], []))"
    unfolding temp_run_step_def Let_def e1 using hb tm by simp
  from packet_size_invariant [where s = sensor_two and now = 1700000000 and now' = 1700000001
      and ops = exact_ops and t = 1700000001 and reading = 3400 and to_int = no_int
      and rs = "[]",
      THEN conjunct2, THEN conjunct1, rule_format, OF inv, THEN conjunct2, rule_format, OF 3]
  have 4: "batch_inv (sensor_mild\<lparr>seq := 1, last_data_time := 1700000001, batch_buffer := []\<rparr>)"
    by simp
  from 1 inv 2 3 4 show ?thesis by blast
qed

subsection \<open>What every reachable server satisfies\<close>

text \<open>
  The conditions the statements above ask of a server hold initially and after every
  packet: every device known to \<open>last_seq\<close> has its counters and a 16-bit sequence
  number, fewer than five entries are pending for any device, and \<open>handle_packet\<close>
  never raises.
\<close>

lemma seq_ok_init: "seq_ok server_init d"
  by (simp add: seq_ok_def server_init_def)

lemma pending_init: "pending server_init d = []"
  by (simp add: pending_def server_init_def)

lemma detect_seq_state_seq_ok:
  assumes "detect_seq_state st dev sq = Inr (st', r)" and "0 \<le> sq" "sq < 65536"
    and "seq_ok st d"
  shows "seq_ok st' d"
  using assms
  by (auto simp: detect_seq_state_def seq_ok_def split: option.splits if_splits)

lemma handle_heartbeat_frame:
  "last_seq (fst (handle_heartbeat ops st dev now)) = last_seq st
   \<and> duplicate_counts (fst (handle_heartbeat ops st dev now)) = duplicate_counts st
   \<and> gap_counts (fst (handle_heartbeat ops st dev now)) = gap_counts st
   \<and> reorder_buffer (fst (handle_heartbeat ops st dev now)) = reorder_buffer st"
  by (simp add: handle_heartbeat_def Let_def)

lemma store_entry_total:
  "\<exists>st'. store_entry st e now = Inr st'
        \<and> last_seq st' = last_seq st \<and> duplicate_counts st' = duplicate_counts st
        \<and> gap_counts st' = gap_counts st
        \<and> ((\<forall>d. length (pending st d) < 5) \<longrightarrow> (\<forall>d. length (pending st' d) < 5))"
proof (cases "length (pending st (e_device_id e)) + 1 < 5")
  case True
  from store_entry_below [OF True, of now] True show ?thesis
    by (auto simp: pending_def)
next
  case False
  then have "length (pending st (e_device_id e)) + 1 \<ge> 5" by simp
  from store_entry_flush [OF this, of now] show ?thesis
    by (auto simp: pending_def)
qed

lemma seq_ok_cong:
  "last_seq st' = last_seq st \<Longrightarrow> duplicate_counts st' = duplicate_counts st \<Longrightarrow>
   gap_counts st' = gap_counts st \<Longrightarrow> seq_ok st' d = seq_ok st d"
  by (simp add: seq_ok_def split: option.split)

lemma pending_cong: "reorder_buffer st' = reorder_buffer st \<Longrightarrow> pending st' d = pending st d"
  by (simp add: pending_def)

lemma handle_packet_invariant:
  assumes ok: "\<forall>d. seq_ok st d" and few: "\<forall>d. length (pending st d) < 5"
  shows "\<exists>st' acks. handle_packet ops st data a now = Inr (st', acks)
           \<and> (\<forall>d. seq_ok st' d) \<and> (\<forall>d. length (pending st' d) < 5)"
proof (cases "decode_header data")
  case (Inl e)
  with ok few show ?thesis by (simp add: handle_packet_def)
next
  case (Inr h)
  then obtain ver mt dev sq ts fl pl where
    dec: "decode_header data = Inr (ver, mt, dev, sq, ts, fl, pl)" by (cases h) auto
  let ?st1 = "st\<lparr>metrics := (metrics st)
                       \<lparr>total_packets := total_packets (metrics st) + 1,
                        total_bytes := total_bytes (metrics st) + int (length data)\<rparr>\<rparr>"
  from decode_header_seq_range [OF dec] have r: "0 \<le> sq" "sq < 65536" by simp_all
  have ok1: "seq_ok ?st1 dev" using ok by simp
  from detect_seq_state_classify [OF ok1 r] obtain st2 df gf n where
    d: "detect_seq_state ?st1 dev sq = Inr (st2, df, gf, n)" by auto
  have ok2: "\<forall>d. seq_ok st2 d"
    using detect_seq_state_seq_ok [OF d r] ok by simp
  have few2: "\<forall>d. length (pending st2 d) < 5"
    using detect_seq_state_frame [OF d] few by (simp add: pending_def)
  let ?st3 = "if gf \<noteq> 0 then st2\<lparr>metrics := (metrics st2)
                    \<lparr>gap_count := gap_count (metrics st2) + n\<rparr>\<rparr> else st2"
  have "last_seq ?st3 = last_seq st2" "duplicate_counts ?st3 = duplicate_counts st2"
    "gap_counts ?st3 = gap_counts st2" by simp_all
  from seq_ok_cong [OF this] ok2 have ok3: "\<forall>d. seq_ok ?st3 d" by simp
  have "reorder_buffer ?st3 = reorder_buffer st2" by simp
  from pending_cong [OF this] few2 have few3: "\<forall>d. length (pending ?st3 d) < 5" by simp
  show ?thesis
  proof (cases "df \<noteq> 0")
    case True
    with dec d ok2 few2 show ?thesis by (simp add: handle_packet_def)
  next
    case nd: False
    consider (data) "mt = 1" | (hb) "mt \<noteq> 1" "mt = 2" | (other) "mt \<noteq> 1" "mt \<noteq> 2" by blast
    then show ?thesis
    proof cases
      case data
      let ?st4 = "?st3\<lparr>last_values := (last_values ?st3)(dev \<mapsto> parse_values pl),
                         metrics := (metrics ?st3)
                           \<lparr>total_readings := total_readings (metrics ?st3)
                              + int (length (parse_values pl))\<rparr>\<rparr>"
      let ?e = "\<lparr> e_timestamp = ts, e_device_id = dev, e_seq = sq,
                  e_msg_type = mt, e_payload = pl, e_duplicate_flag = df, e_gap_flag = gf,
                  e_flags = fl, e_reading_count = int (length (parse_values pl)) \<rparr>"
      have "last_seq ?st4 = last_seq ?st3" "duplicate_counts ?st4 = duplicate_counts ?st3"
        "gap_counts ?st4 = gap_counts ?st3" by simp_all
      from seq_ok_cong [OF this] ok3 have ok4: "\<forall>d. seq_ok ?st4 d" by simp
      have "reorder_buffer ?st4 = reorder_buffer ?st3" by simp
      from pending_cong [OF this] few3 have few4: "\<forall>d. length (pending ?st4 d) < 5" by simp
      from store_entry_total [of ?st4 ?e now] obtain st5 where
        s: "store_entry ?st4 ?e now = Inr st5" "last_seq st5 = last_seq ?st4"
        "duplicate_counts st5 = duplicate_counts ?st4" "gap_counts st5 = gap_counts ?st4"
        "(\<forall>d. length (pending ?st4 d) < 5) \<longrightarrow> (\<forall>d. length (pending st5 d) < 5)" by blast
      from seq_ok_cong [OF s(2-4)] ok4 have ok5: "\<forall>d. seq_ok st5 d" by simp
      from s(5) few4 have few5: "\<forall>d. length (pending st5 d) < 5" by blast
      from dec d nd data s(1) ok5 few5 show ?thesis
        by (simp add: handle_packet_def Let_def)
    next
      case hb
      let ?st4 = "fst (handle_heartbeat ops ?st3 dev now)"
      let ?e = "\<lparr> e_timestamp = ts, e_device_id = dev, e_seq = sq,
                  e_msg_type = mt, e_payload = pl, e_duplicate_flag = df, e_gap_flag = gf,
                  e_flags = fl, e_reading_count = 0 \<rparr>"
      note f = handle_heartbeat_frame [of ops ?st3 dev now]
      from f have "last_seq ?st4 = last_seq ?st3" "duplicate_counts ?st4 = duplicate_counts ?st3"
        "gap_counts ?st4 = gap_counts ?st3" by simp_all
      from seq_ok_cong [OF this] ok3 have ok4: "\<forall>d. seq_ok ?st4 d" by simp
      from f have "reorder_buffer ?st4 = reorder_buffer ?st3" by simp
      from pending_cong [OF this] few3 have few4: "\<forall>d. length (pending ?st4 d) < 5" by simp
      from store_entry_total [of ?st4 ?e now] obtain st5 where
        s: "store_entry ?st4 ?e now = Inr st5" "last_seq st5 = last_seq ?st4"
        "duplicate_counts st5 = duplicate_counts ?st4" "gap_counts st5 = gap_counts ?st4"
        "(\<forall>d. length (pending ?st4 d) < 5) \<longrightarrow> (\<forall>d. length (pending st5 d) < 5)" by blast
      from seq_ok_cong [OF s(2-4)] ok4 have ok5: "\<forall>d. seq_ok st5 d" by simp
      from s(5) few4 have few5: "\<forall>d. length (pending st5 d) < 5" by blast
      from dec d nd hb s(1) ok5 few5 show ?thesis
        by (simp add: handle_packet_def Let_def)
    next
      case other
      with dec d nd ok3 few3 show ?thesis
        by (simp add: handle_packet_def Let_def)
    qed
  qed
qed

end
